theory Spec2Isabelle
  imports Complex_Main "HOL-Library.Word"
begin

section \<open>Tensors, errors and library operations\<close>

text \<open>
  The embedding follows \<^verbatim>\<open>beaver/model/embeddings.py\<close> and
  \<^verbatim>\<open>beaver/model/transformer.py\<close>. Floating-point numbers are idealised as
  real numbers (the specification asks for the mathematical contract, not the bit pattern);
  a tensor is a nested list, outermost dimension first. An empty nested list does not record
  the sizes of its inner dimensions, so the theorems speak of batches that are not empty.
  Every exception of the Python code is a value of type \<open>error\<close>. The values drawn by
  the random initialisers and by dropout are explicit arguments. The encoder stack takes
  part in no property below and is left out.
\<close>

datatype error =
    RuntimeError        \<comment> \<open>shape mismatch or invalid size reported by the tensor library\<close>
  | IndexError          \<comment> \<open>index out of range\<close>
  | AttributeError      \<comment> \<open>attribute access on \<^verbatim>\<open>None\<close>\<close>
  | ZeroDivisionError
  | ValueError
  | AssertionError

type_synonym vec = "real list"
type_synonym mat = "real list list"
type_synonym tensor3 = "real list list list"
type_synonym tensor4 = "real list list list list"

text \<open>Running a list of fallible computations, stopping at the first error.\<close>

fun collect :: "(error + 'a) list \<Rightarrow> error + 'a list" where
  "collect [] = Inr []"
| "collect (r # rs) =
     (case r of Inl e \<Rightarrow> Inl e
      | Inr y \<Rightarrow> (case collect rs of Inl e \<Rightarrow> Inl e | Inr ys \<Rightarrow> Inr (y # ys)))"

text \<open>
  Broadcasting of one dimension, as the tensor library does it for a binary operation: equal
  sizes pair up, a dimension of size one is repeated, anything else is a shape error.
\<close>

definition broadcast2 :: "'a list \<Rightarrow> 'b list \<Rightarrow> error + ('a \<times> 'b) list" where
  "broadcast2 xs ys =
     (if length xs = length ys then Inr (zip xs ys)
      else if length xs = 1 then Inr (map (\<lambda>y. (hd xs, y)) ys)
      else if length ys = 1 then Inr (map (\<lambda>x. (x, hd ys)) xs)
      else Inl RuntimeError)"

definition add_vec :: "'a::plus list \<Rightarrow> 'a list \<Rightarrow> error + 'a list" where
  "add_vec u v =
     (case broadcast2 u v of Inl e \<Rightarrow> Inl e
      | Inr ps \<Rightarrow> Inr (map (\<lambda>(a, b). a + b) ps))"

definition add_mat :: "'a::plus list list \<Rightarrow> 'a list list \<Rightarrow> error + 'a list list" where
  "add_mat a b =
     (case broadcast2 a b of Inl e \<Rightarrow> Inl e
      | Inr ps \<Rightarrow> collect (map (\<lambda>(u, v). add_vec u v) ps))"

text \<open>
  Python's slice \<^verbatim>\<open>xs[a:b]\<close> with integer bounds: a negative bound counts from the
  end, both bounds are clipped to the length, and the slice never raises.
\<close>

definition slice_index :: "int \<Rightarrow> nat \<Rightarrow> nat" where
  "slice_index i n = (if i < 0 then nat (max (i + int n) 0) else min (nat i) n)"

definition py_slice :: "'a list \<Rightarrow> int \<Rightarrow> int \<Rightarrow> 'a list" where
  "py_slice xs a b =
     (let start = slice_index a (length xs); stop = slice_index b (length xs)
      in take (stop - start) (drop start xs))"

section \<open>Positional encoding\<close>

text \<open>
  \<^verbatim>\<open>pe[:, start::2] = vals\<close> on one row: the columns \<open>start, start + 2, ...\<close>
  take the values in order; a single value is broadcast to every such column.
\<close>

definition assign_stride2 :: "nat \<Rightarrow> vec \<Rightarrow> vec \<Rightarrow> vec" where
  "assign_stride2 start row vals =
     map (\<lambda>c. if start \<le> c \<and> even (c - start)
              then (if length vals = 1 then vals ! 0 else vals ! ((c - start) div 2))
              else row ! c) [0..<length row]"

text \<open>
  \<^verbatim>\<open>positional_encoding_2(dim, max_len=5000)\<close>. \<^verbatim>\<open>torch.zeros\<close> rejects a negative
  size; \<^verbatim>\<open>math.log(10000.0) / dim\<close> raises for \<open>dim = 0\<close>; the second strided
  assignment needs the \<open>(dim + 1) div 2\<close> columns of \<^verbatim>\<open>div_term\<close> to fit the
  \<open>dim div 2\<close> odd columns of the table (or to be a single column).
\<close>

definition positional_encoding_2 :: "int \<Rightarrow> int \<Rightarrow> error + mat" where
  "positional_encoding_2 dim' max_len =
     (if max_len < 0 \<or> dim' < 0 then Inl RuntimeError
      else if dim' = 0 then Inl ZeroDivisionError
      else
        let pe = replicate (nat max_len) (replicate (nat dim') (0::real));
            position = [0..<nat max_len];
            div_term = map (\<lambda>j. exp (real (2 * j) * - (ln 10000 / real_of_int dim')))
                         [0..<(nat dim' + 1) div 2];
            pe = map (\<lambda>(row, pos). assign_stride2 0 row (map (\<lambda>d. sin (real pos * d)) div_term))
                   (zip pe position)
        in if length div_term \<noteq> nat dim' div 2 \<and> length div_term \<noteq> 1 then Inl RuntimeError
           else Inr (map (\<lambda>(row, pos). assign_stride2 1 row (map (\<lambda>d. cos (real pos * d)) div_term))
                      (zip pe position)))"

section \<open>Dropout\<close>

text \<open>
  \<^verbatim>\<open>nn.Dropout\<close>: the identity unless the module is in training mode with a positive
  rate; in training mode an element is zeroed or scaled by \<open>1 / (1 - p)\<close>. The Bernoulli
  sample drawn by the call is an explicit argument, indexed like the tensor.
\<close>

record Dropout =
  dropout_p :: real
  dropout_training :: bool

definition Dropout_mat :: "Dropout \<Rightarrow> (nat \<Rightarrow> nat \<Rightarrow> bool) \<Rightarrow> mat \<Rightarrow> mat" where
  "Dropout_mat d keep x =
     (if \<not> dropout_training d \<or> dropout_p d = 0 then x
      else map (\<lambda>(i, r). map (\<lambda>(j, v). if dropout_p d < 1 \<and> keep i j
                                         then v / (1 - dropout_p d) else 0)
                            (enumerate 0 r)) (enumerate 0 x))"

definition Dropout_forward :: "Dropout \<Rightarrow> (nat \<Rightarrow> nat \<Rightarrow> nat \<Rightarrow> bool) \<Rightarrow> tensor3 \<Rightarrow> tensor3" where
  "Dropout_forward d keep x = map (\<lambda>(b, m). Dropout_mat d (keep b) m) (enumerate 0 x)"

section \<open>Token embedding\<close>

record Embedding =
  word_padding_idx :: int
  embedding_dim :: int
  emb_weight :: mat          \<comment> \<open>\<^verbatim>\<open>self.embedding.weight\<close>, one row per token id\<close>
  pe :: mat                  \<comment> \<open>the registered buffer \<^verbatim>\<open>pe\<close>\<close>
  emb_dropout :: Dropout     \<comment> \<open>\<^verbatim>\<open>self.dropout\<close>\<close>

text \<open>
  \<^verbatim>\<open>Embedding.__init__(embedding_dim, vocab_size, padding_idx, dropout)\<close>. The values
  drawn by \<^verbatim>\<open>nn.init.normal_\<close> are the argument \<open>sample\<close>; the padding row is set
  to zero afterwards. \<^verbatim>\<open>nn.Embedding\<close> asserts that the padding index is within the
  table and \<^verbatim>\<open>nn.Dropout\<close> that the rate is a probability. The positional table is
  built by \<^verbatim>\<open>positional_encoding_2(embedding_dim)\<close>, that is, with the default length.
\<close>

definition Embedding_init ::
  "int \<Rightarrow> int \<Rightarrow> int \<Rightarrow> real \<Rightarrow> (nat \<Rightarrow> nat \<Rightarrow> real) \<Rightarrow> error + Embedding" where
  "Embedding_init embedding_dim' vocab_size padding_idx dropout' sample =
     (case positional_encoding_2 embedding_dim' 5000 of Inl e \<Rightarrow> Inl e
      | Inr pe' \<Rightarrow>
          if 0 < padding_idx \<and> \<not> padding_idx < vocab_size then Inl AssertionError
          else if padding_idx < 0 \<and> \<not> - vocab_size \<le> padding_idx then Inl AssertionError
          else if vocab_size < 0 then Inl RuntimeError
          else if vocab_size = 0 then Inl IndexError
          else if dropout' < 0 \<or> 1 < dropout' then Inl ValueError
          else
            let pad_row = nat (if padding_idx < 0 then vocab_size + padding_idx else padding_idx);
                w = map (\<lambda>i. map (\<lambda>j. if i = pad_row then 0 else sample i j)
                                   [0..<nat embedding_dim']) [0..<nat vocab_size]
            in Inr \<lparr> word_padding_idx = padding_idx, embedding_dim = embedding_dim',
                     emb_weight = w, pe = pe',
                     emb_dropout = \<lparr> dropout_p = dropout', dropout_training = True \<rparr> \<rparr>)"

text \<open>\<^verbatim>\<open>self.embedding(x)\<close> for one token id: an id outside the table raises.\<close>

definition lookup :: "mat \<Rightarrow> int \<Rightarrow> error + vec" where
  "lookup w i = (if 0 \<le> i \<and> i < int (length w) then Inr (w ! nat i) else Inl IndexError)"

definition scale_mat :: "real \<Rightarrow> mat \<Rightarrow> mat" where
  "scale_mat c m = map (map (\<lambda>v. v * c)) m"

text \<open>
  \<^verbatim>\<open>Embedding.forward(x, timestep)\<close> on a batch of token-id rows. The sequence length
  \<^verbatim>\<open>x.size(1)\<close> is the length of the rows. The slice of the positional table is added by
  broadcasting, so a slice clipped by the end of the table raises only when it cannot be
  broadcast.
\<close>

definition Embedding_forward ::
  "Embedding \<Rightarrow> (nat \<Rightarrow> nat \<Rightarrow> nat \<Rightarrow> bool) \<Rightarrow> int list list \<Rightarrow> int \<Rightarrow> error + tensor3" where
  "Embedding_forward emb keep x timestep =
     (case collect (map (\<lambda>row. collect (map (lookup (emb_weight emb)) row)) x) of
        Inl e \<Rightarrow> Inl e
      | Inr looked \<Rightarrow>
          if embedding_dim emb < 0 then Inl ValueError
          else
            let seq_len = (case x of [] \<Rightarrow> 0 | row # _ \<Rightarrow> length row);
                pos = py_slice (pe emb) timestep (timestep + int seq_len)
            in case collect (map (\<lambda>m. add_mat (scale_mat (sqrt (real_of_int (embedding_dim emb))) m) pos)
                               looked) of
                 Inl e \<Rightarrow> Inl e
               | Inr embedding \<Rightarrow>
                   Inr (Dropout_forward (emb_dropout emb) keep
                          (map (scale_mat (real_of_int (embedding_dim emb) powr (1 / 2))) embedding)))"

definition well_formed_Embedding :: "Embedding \<Rightarrow> bool" where
  "well_formed_Embedding emb =
     (0 \<le> embedding_dim emb \<and>
      list_all (\<lambda>r. length r = nat (embedding_dim emb)) (emb_weight emb) \<and>
      list_all (\<lambda>r. length r = nat (embedding_dim emb)) (pe emb))"

text \<open>A batch of \<open>len\<close> token ids per row, not empty, every id within a table of \<open>vocab\<close> rows.\<close>

definition token_batch :: "nat \<Rightarrow> nat \<Rightarrow> int list list \<Rightarrow> bool" where
  "token_batch vocab len x =
     (x \<noteq> [] \<and> list_all (\<lambda>row. length row = len \<and> list_all (\<lambda>i. 0 \<le> i \<and> i < int vocab) row) x)"

section \<open>Linear layers, layer normalisation and the feed-forward block\<close>

record Linear =
  in_features :: nat
  out_features :: nat
  lin_weight :: mat          \<comment> \<open>\<open>out_features\<close> rows of \<open>in_features\<close> columns\<close>
  lin_bias :: vec

definition dot :: "vec \<Rightarrow> vec \<Rightarrow> real" where
  "dot u v = sum_list (map (\<lambda>(a, b). a * b) (zip u v))"

text \<open>\<^verbatim>\<open>nn.Linear\<close> on one vector: the size of the vector must be \<open>in_features\<close>.\<close>

definition Linear_vec :: "Linear \<Rightarrow> vec \<Rightarrow> error + vec" where
  "Linear_vec l x =
     (if length x \<noteq> in_features l then Inl RuntimeError
      else Inr (map (\<lambda>(w, b). dot x w + b) (zip (lin_weight l) (lin_bias l))))"

definition Linear_forward :: "Linear \<Rightarrow> tensor3 \<Rightarrow> error + tensor3" where
  "Linear_forward l x = collect (map (\<lambda>m. collect (map (Linear_vec l) m)) x)"

text \<open>
  A layer as \<^verbatim>\<open>nn.Linear(n_in, n_out)\<close> followed by \<^verbatim>\<open>xavier_uniform_\<close> on the weight and
  \<^verbatim>\<open>constant_(bias, 0.)\<close> leaves it; \<open>sample\<close> stands for the values drawn.
\<close>

definition new_Linear :: "nat \<Rightarrow> nat \<Rightarrow> (nat \<Rightarrow> nat \<Rightarrow> real) \<Rightarrow> Linear" where
  "new_Linear n_in n_out sample =
     \<lparr> in_features = n_in, out_features = n_out,
       lin_weight = map (\<lambda>i. map (\<lambda>j. sample i j) [0..<n_in]) [0..<n_out],
       lin_bias = replicate n_out 0 \<rparr>"

record LayerNorm =
  normalized_shape :: nat
  ln_weight :: vec
  ln_bias :: vec
  ln_eps :: real

definition LayerNorm_vec :: "LayerNorm \<Rightarrow> vec \<Rightarrow> error + vec" where
  "LayerNorm_vec lnorm x =
     (if length x \<noteq> normalized_shape lnorm then Inl RuntimeError
      else
        let mean = sum_list x / real (length x);
            var = sum_list (map (\<lambda>a. (a - mean)\<^sup>2) x) / real (length x)
        in Inr (map (\<lambda>(a, w, b). (a - mean) / sqrt (var + ln_eps lnorm) * w + b)
                  (zip x (zip (ln_weight lnorm) (ln_bias lnorm)))))"

definition LayerNorm_forward :: "LayerNorm \<Rightarrow> tensor3 \<Rightarrow> error + tensor3" where
  "LayerNorm_forward lnorm x = collect (map (\<lambda>m. collect (map (LayerNorm_vec lnorm) m)) x)"

text \<open>Addition of two batches, broadcasting every dimension (the residual connections).\<close>

definition add_tensor3 :: "tensor3 \<Rightarrow> tensor3 \<Rightarrow> error + tensor3" where
  "add_tensor3 a b =
     (case broadcast2 a b of Inl e \<Rightarrow> Inl e
      | Inr ps \<Rightarrow> collect (map (\<lambda>(u, v). add_mat u v) ps))"

record FeedForward =
  linear_in :: Linear
  linear_out :: Linear
  ff_dropout :: Dropout      \<comment> \<open>\<^verbatim>\<open>self.dropout\<close>\<close>

definition relu :: "tensor3 \<Rightarrow> tensor3" where
  "relu x = map (map (map (\<lambda>v. max 0 v))) x"

definition FeedForward_forward ::
  "FeedForward \<Rightarrow> (nat \<Rightarrow> nat \<Rightarrow> nat \<Rightarrow> bool) \<Rightarrow> tensor3 \<Rightarrow> error + tensor3" where
  "FeedForward_forward ff keep x =
     (case Linear_forward (linear_in ff) x of Inl e \<Rightarrow> Inl e
      | Inr y \<Rightarrow> Linear_forward (linear_out ff) (Dropout_forward (ff_dropout ff) keep (relu y)))"

section \<open>Multi-head attention\<close>

type_synonym mask3 = "8 word list list list"   \<comment> \<open>a byte mask, batch \<open>\<times>\<close> query \<open>\<times>\<close> key\<close>

record MultiHeadedAttention =
  dim_per_head :: int
  head_count :: int
  linear_q :: Linear
  linear_kv :: Linear
  linear_qkv :: Linear
  mha_dropout :: Dropout     \<comment> \<open>\<^verbatim>\<open>self.dropout\<close>\<close>
  final_linear :: Linear

text \<open>
  \<^verbatim>\<open>MultiHeadedAttention.__init__(head_count, model_dim, dropout)\<close>. The first statement is
  the integer division \<^verbatim>\<open>model_dim // head_count\<close>, which raises only for a zero divisor;
  no statement compares \<open>model_dim\<close> with \<open>head_count * dim_per_head\<close>. \<^verbatim>\<open>nn.Linear\<close>
  rejects a negative size, \<^verbatim>\<open>nn.Dropout\<close> a rate outside \<open>[0, 1]\<close>, and
  \<^verbatim>\<open>xavier_uniform_\<close> divides by \<open>fan_in + fan_out\<close>, which is zero for \<open>model_dim = 0\<close>.
  \<open>sample k\<close> stands for the values drawn for the \<open>k\<close>-th weight matrix.
\<close>

definition MultiHeadedAttention_init ::
  "int \<Rightarrow> int \<Rightarrow> real \<Rightarrow> (nat \<Rightarrow> nat \<Rightarrow> nat \<Rightarrow> real) \<Rightarrow> error + MultiHeadedAttention" where
  "MultiHeadedAttention_init head_count' model_dim dropout' sample =
     (if head_count' = 0 then Inl ZeroDivisionError
      else if model_dim < 0 then Inl RuntimeError
      else if dropout' < 0 \<or> 1 < dropout' then Inl ValueError
      else if model_dim = 0 then Inl ZeroDivisionError
      else Inr \<lparr> dim_per_head = model_dim div head_count', head_count = head_count',
                 linear_q = new_Linear (nat model_dim) (nat model_dim) (sample 0),
                 linear_kv = new_Linear (nat model_dim) (nat model_dim * 2) (sample 1),
                 linear_qkv = new_Linear (nat model_dim) (nat model_dim * 3) (sample 2),
                 mha_dropout = \<lparr> dropout_p = dropout', dropout_training = True \<rparr>,
                 final_linear = new_Linear (nat model_dim) (nat model_dim) (sample 3) \<rparr>)"

text \<open>
  \<^verbatim>\<open>torch.chunk(v, n, dim=-1)\<close> on one vector: pieces of \<open>ceil (size / n)\<close> elements;
  a vector of size zero gives \<open>n\<close> empty pieces.
\<close>

definition chunk :: "nat \<Rightarrow> vec \<Rightarrow> vec list" where
  "chunk n v =
     (let size = (length v + n - 1) div n
      in if size = 0 then replicate n []
         else map (\<lambda>i. take size (drop (i * size) v)) [0..<(length v + size - 1) div size])"

text \<open>
  The projections of \<^verbatim>\<open>forward\<close>: without a memory the fused projection of the query,
  unpacked into three chunks; with a memory the query projection and the fused key/value
  projection of the memory, unpacked into two chunks. Unpacking another number of chunks
  raises.
\<close>

definition project ::
  "MultiHeadedAttention \<Rightarrow> tensor3 \<Rightarrow> tensor3 option \<Rightarrow> error + (tensor3 \<times> tensor3 \<times> tensor3)" where
  "project m query memory =
     (case memory of
        None \<Rightarrow>
          (case Linear_forward (linear_qkv m) query of Inl e \<Rightarrow> Inl e
           | Inr qkv \<Rightarrow>
               if list_all (list_all (\<lambda>r. length (chunk 3 r) = 3)) qkv
               then Inr (map (map (\<lambda>r. chunk 3 r ! 0)) qkv,
                         map (map (\<lambda>r. chunk 3 r ! 1)) qkv,
                         map (map (\<lambda>r. chunk 3 r ! 2)) qkv)
               else Inl ValueError)
      | Some mem \<Rightarrow>
          (case Linear_forward (linear_q m) query of Inl e \<Rightarrow> Inl e
           | Inr q \<Rightarrow>
               (case Linear_forward (linear_kv m) mem of Inl e \<Rightarrow> Inl e
                | Inr kv \<Rightarrow>
                    if list_all (list_all (\<lambda>r. length (chunk 2 r) = 2)) kv
                    then Inr (q, map (map (\<lambda>r. chunk 2 r ! 0)) kv, map (map (\<lambda>r. chunk 2 r ! 1)) kv)
                    else Inl ValueError)))"

text \<open>
  \<^verbatim>\<open>split_head\<close>: \<open>B \<times> L \<times> D\<close> to \<open>B \<times> h \<times> L \<times> d\<close>. The keys and values are chunks of a
  wider tensor, so \<^verbatim>\<open>view\<close> can only split their last dimension: it raises unless
  \<open>D = h * d\<close> with positive \<open>h\<close> and \<open>d\<close>.
\<close>

definition split_head :: "MultiHeadedAttention \<Rightarrow> tensor3 \<Rightarrow> error + tensor4" where
  "split_head m x =
     (if head_count m \<le> 0 \<or> dim_per_head m \<le> 0 \<or>
         \<not> list_all (list_all (\<lambda>r. int (length r) = head_count m * dim_per_head m)) x
      then Inl RuntimeError
      else Inr (map (\<lambda>xb. map (\<lambda>h. map (\<lambda>r. take (nat (dim_per_head m))
                                               (drop (h * nat (dim_per_head m)) r)) xb)
                            [0..<nat (head_count m)]) x))"

text \<open>\<^verbatim>\<open>combine_head\<close>: \<open>B \<times> h \<times> L \<times> d\<close> to \<open>B \<times> L \<times> (h * d)\<close>.\<close>

definition combine_head :: "tensor4 \<Rightarrow> tensor3" where
  "combine_head x =
     map (\<lambda>heads. map (\<lambda>i. concat (map (\<lambda>h. h ! i) heads))
                     [0..<(case heads of [] \<Rightarrow> 0 | h # _ \<Rightarrow> length h)]) x"

text \<open>\<^verbatim>\<open>torch.matmul(q, k.transpose(2, 3))\<close>; the batch dimension is broadcast.\<close>

definition matmul_qk :: "tensor4 \<Rightarrow> tensor4 \<Rightarrow> error + tensor4" where
  "matmul_qk q k =
     (case broadcast2 q k of Inl e \<Rightarrow> Inl e
      | Inr ps \<Rightarrow>
          Inr (map (\<lambda>(qb, kb). map (\<lambda>(qh, kh). map (\<lambda>qi. map (\<lambda>kj. dot qi kj) kh) qh) (zip qb kb)) ps))"

text \<open>
  \<^verbatim>\<open>tensor.expand\<close> of one dimension to size \<open>n\<close>: the size is already \<open>n\<close>, or it is
  one and the element is repeated.
\<close>

definition expand :: "nat \<Rightarrow> 'a list \<Rightarrow> error + 'a list" where
  "expand n xs =
     (if length xs = n then Inr xs
      else if length xs = 1 then Inr (replicate n (hd xs))
      else Inl RuntimeError)"

text \<open>
  \<^verbatim>\<open>mask.unsqueeze(1).expand_as(scores)\<close>: the mask of a batch element serves every head;
  its rows and columns are expanded to the queries and keys of the scores.
\<close>

definition expand_as :: "mask3 \<Rightarrow> tensor4 \<Rightarrow> error + mask3" where
  "expand_as msk scores =
     (case expand (length scores) msk of Inl e \<Rightarrow> Inl e
      | Inr mb \<Rightarrow>
          collect (map (\<lambda>(mm, heads).
                     let s0 = (case heads of [] \<Rightarrow> [] | h # _ \<Rightarrow> h)
                     in case expand (length s0) mm of Inl e \<Rightarrow> Inl e
                        | Inr rows \<Rightarrow>
                            collect (map (expand (case s0 of [] \<Rightarrow> 0 | r # _ \<Rightarrow> length r)) rows))
                   (zip mb scores)))"

text \<open>\<^verbatim>\<open>scores.masked_fill(mask, -1e20)\<close> on one row of scores.\<close>

definition masked_fill :: "vec \<Rightarrow> 8 word list \<Rightarrow> vec" where
  "masked_fill scores msk = map (\<lambda>(s, b). if b \<noteq> 0 then - (10 ^ 20) else s) (zip scores msk)"

definition softmax :: "vec \<Rightarrow> vec" where
  "softmax xs = map (\<lambda>x. exp x / sum_list (map exp xs)) xs"

text \<open>One row of \<^verbatim>\<open>torch.matmul(weights, v)\<close>: the weighted sum of the value vectors.\<close>

definition weighted_sum :: "nat \<Rightarrow> vec \<Rightarrow> mat \<Rightarrow> vec" where
  "weighted_sum d w v = map (\<lambda>c. sum_list (map (\<lambda>(a, r). a * r ! c) (zip w v))) [0..<d]"

definition matmul_wv :: "nat \<Rightarrow> tensor4 \<Rightarrow> tensor4 \<Rightarrow> error + tensor4" where
  "matmul_wv d w v =
     (case broadcast2 w v of Inl e \<Rightarrow> Inl e
      | Inr ps \<Rightarrow>
          Inr (map (\<lambda>(wb, vb). map (\<lambda>(wh, vh). map (\<lambda>wi. weighted_sum d wi vh) wh) (zip wb vb)) ps))"

text \<open>
  \<^verbatim>\<open>MultiHeadedAttention.forward(query, memory, mask)\<close>. The mask is dereferenced
  (\<^verbatim>\<open>mask.unsqueeze(1)\<close>) after the scores are computed, whatever it is: \<^verbatim>\<open>None\<close> raises
  there. \<open>keep\<close> is the sample of the attention dropout, indexed by batch, head, query
  and key.
\<close>

definition MultiHeadedAttention_forward ::
  "MultiHeadedAttention \<Rightarrow> (nat \<Rightarrow> nat \<Rightarrow> nat \<Rightarrow> nat \<Rightarrow> bool) \<Rightarrow>
     tensor3 \<Rightarrow> tensor3 option \<Rightarrow> mask3 option \<Rightarrow> error + tensor3" where
  "MultiHeadedAttention_forward m keep query memory msk =
     (case project m query memory of Inl e \<Rightarrow> Inl e
      | Inr (q, k, v) \<Rightarrow>
     (case split_head m q of Inl e \<Rightarrow> Inl e
      | Inr q \<Rightarrow>
     (case split_head m k of Inl e \<Rightarrow> Inl e
      | Inr k \<Rightarrow>
     (case split_head m v of Inl e \<Rightarrow> Inl e
      | Inr v \<Rightarrow>
     (case matmul_qk (map (map (scale_mat (real_of_int (dim_per_head m) powr (- 1 / 2)))) q) k of
        Inl e \<Rightarrow> Inl e
      | Inr scores \<Rightarrow>
     (case msk of None \<Rightarrow> Inl AttributeError
      | Some msk' \<Rightarrow>
     (case expand_as msk' scores of Inl e \<Rightarrow> Inl e
      | Inr msk'' \<Rightarrow>
          let scores = map (\<lambda>(heads, mm). map (\<lambda>h. map (\<lambda>(s, mr). masked_fill s mr) (zip h mm)) heads)
                         (zip scores msk'');
              weights = map (\<lambda>(b, heads). map (\<lambda>(h, s). Dropout_mat (mha_dropout m) (keep b h)
                                                         (map softmax s))
                                              (enumerate 0 heads))
                          (enumerate 0 scores)
          in case matmul_wv (nat (dim_per_head m)) weights v of Inl e \<Rightarrow> Inl e
             | Inr context \<Rightarrow> Linear_forward (final_linear m) (combine_head context))))))))"

section \<open>Decoder\<close>

record DecoderLayer =
  self_attn :: MultiHeadedAttention
  src_attn :: MultiHeadedAttention
  feed_forward :: FeedForward
  norm_0 :: LayerNorm        \<comment> \<open>\<^verbatim>\<open>self.norm[0]\<close>\<close>
  norm_1 :: LayerNorm
  norm_2 :: LayerNorm
  layer_dropout :: Dropout   \<comment> \<open>\<^verbatim>\<open>self.dropout\<close>\<close>

text \<open>The samples of the six dropout calls of one layer.\<close>

record layer_noise =
  keep_self_attn :: "nat \<Rightarrow> nat \<Rightarrow> nat \<Rightarrow> nat \<Rightarrow> bool"
  keep_0 :: "nat \<Rightarrow> nat \<Rightarrow> nat \<Rightarrow> bool"
  keep_src_attn :: "nat \<Rightarrow> nat \<Rightarrow> nat \<Rightarrow> nat \<Rightarrow> bool"
  keep_1 :: "nat \<Rightarrow> nat \<Rightarrow> nat \<Rightarrow> bool"
  keep_ff :: "nat \<Rightarrow> nat \<Rightarrow> nat \<Rightarrow> bool"
  keep_2 :: "nat \<Rightarrow> nat \<Rightarrow> nat \<Rightarrow> bool"

text \<open>
  \<^verbatim>\<open>torch.cat((previous, x), dim=1)\<close>: the batch sizes and the feature sizes must agree.
\<close>

definition cat_1 :: "tensor3 \<Rightarrow> tensor3 \<Rightarrow> error + tensor3" where
  "cat_1 previous x =
     (if length previous \<noteq> length x then Inl RuntimeError
      else collect (map (\<lambda>(pb, xb).
                      if pb = [] \<or> xb = [] \<or> length (hd pb) = length (hd xb) then Inr (pb @ xb)
                      else Inl RuntimeError)
                    (zip previous x)))"

text \<open>One sub-block's \<^verbatim>\<open>self.norm[i](x + self.dropout(y))\<close>.\<close>

definition residual ::
  "LayerNorm \<Rightarrow> Dropout \<Rightarrow> (nat \<Rightarrow> nat \<Rightarrow> nat \<Rightarrow> bool) \<Rightarrow> tensor3 \<Rightarrow> tensor3 \<Rightarrow> error + tensor3" where
  "residual lnorm d keep x y =
     (case add_tensor3 x (Dropout_forward d keep y) of Inl e \<Rightarrow> Inl e
      | Inr s \<Rightarrow> LayerNorm_forward lnorm s)"

definition DecoderLayer_forward ::
  "DecoderLayer \<Rightarrow> layer_noise \<Rightarrow> tensor3 \<Rightarrow> tensor3 \<Rightarrow> mask3 \<Rightarrow> mask3 option \<Rightarrow> tensor3 option \<Rightarrow>
     error + (tensor3 \<times> tensor3)" where
  "DecoderLayer_forward layer noise x enc_out src_mask tgt_mask previous =
     (case (case previous of None \<Rightarrow> Inr x | Some prev \<Rightarrow> cat_1 prev x) of Inl e \<Rightarrow> Inl e
      | Inr all_input \<Rightarrow>
     (case MultiHeadedAttention_forward (self_attn layer) (keep_self_attn noise) x (Some all_input) tgt_mask of
        Inl e \<Rightarrow> Inl e
      | Inr y \<Rightarrow>
     (case residual (norm_0 layer) (layer_dropout layer) (keep_0 noise) x y of Inl e \<Rightarrow> Inl e
      | Inr x1 \<Rightarrow>
     (case MultiHeadedAttention_forward (src_attn layer) (keep_src_attn noise) x1 (Some enc_out) (Some src_mask) of
        Inl e \<Rightarrow> Inl e
      | Inr y1 \<Rightarrow>
     (case residual (norm_1 layer) (layer_dropout layer) (keep_1 noise) x1 y1 of Inl e \<Rightarrow> Inl e
      | Inr x2 \<Rightarrow>
     (case FeedForward_forward (feed_forward layer) (keep_ff noise) x2 of Inl e \<Rightarrow> Inl e
      | Inr y2 \<Rightarrow>
     (case residual (norm_2 layer) (layer_dropout layer) (keep_2 noise) x2 y2 of Inl e \<Rightarrow> Inl e
      | Inr x3 \<Rightarrow> Inr (x3, all_input))))))))"

record Decoder =
  embedding :: Embedding
  layers :: "DecoderLayer list"

text \<open>
  The buffer registered by \<^verbatim>\<open>Decoder.__init__\<close>:
  \<^verbatim>\<open>torch.triu(torch.ones(1000, 1000), diagonal=1).byte()\<close>. No code writes it afterwards.
\<close>

definition upper_triangle :: "8 word list list" where
  "upper_triangle = map (\<lambda>i. map (\<lambda>j. if i < j then 1 else 0) [0..<1000]) [0..<1000]"

text \<open>\<^verbatim>\<open>pad.unsqueeze(1).repeat(1, tgt_len, 1)\<close>.\<close>

definition repeat_rows :: "nat \<Rightarrow> 8 word list list \<Rightarrow> mask3" where
  "repeat_rows tgt_len pad = map (\<lambda>row. replicate tgt_len row) pad"

definition gt_0 :: "mask3 \<Rightarrow> mask3" where
  "gt_0 x = map (map (map (\<lambda>v. if 0 < v then 1 else 0))) x"

text \<open>
  The self-attention mask of \<^verbatim>\<open>Decoder.forward\<close>:
  \<^verbatim>\<open>torch.gt(tgt_mask + upper_triangle[:tgt_len, :tgt_len], 0)\<close>, a byte addition (which
  wraps at 256) of the repeated padding flags and the slice of the buffer, broadcast over the
  batch.
\<close>

definition make_tgt_mask :: "nat \<Rightarrow> 8 word list list \<Rightarrow> error + mask3" where
  "make_tgt_mask tgt_len tgt_pad =
     (let tgt_mask = repeat_rows tgt_len tgt_pad;
          upper = map (\<lambda>row. py_slice row 0 (int tgt_len)) (py_slice upper_triangle 0 (int tgt_len))
      in case collect (map (\<lambda>m. add_mat m upper) tgt_mask) of Inl e \<Rightarrow> Inl e
         | Inr s \<Rightarrow> Inr (gt_0 s))"

text \<open>\<^verbatim>\<open>previous[:, i]\<close>.\<close>

definition select_1 :: "tensor4 \<Rightarrow> nat \<Rightarrow> error + tensor3" where
  "select_1 previous i =
     collect (map (\<lambda>pb. if i < length pb then Inr (pb ! i) else Inl IndexError) previous)"

text \<open>
  \<^verbatim>\<open>torch.stack(saved_inputs, dim=1)\<close>: at least one tensor, all of one shape.
\<close>

definition stack_1 :: "tensor3 list \<Rightarrow> error + tensor4" where
  "stack_1 saved =
     (case saved of [] \<Rightarrow> Inl RuntimeError
      | s0 # _ \<Rightarrow>
          if list_all (\<lambda>s. map (map length) s = map (map length) s0) saved
          then Inr (map (\<lambda>b. map (\<lambda>s. s ! b) saved) [0..<length s0])
          else Inl RuntimeError)"

text \<open>
  The loop of \<^verbatim>\<open>Decoder.forward\<close> over the layers, from layer \<open>i\<close> on. It returns the
  output of the last layer and the list \<^verbatim>\<open>saved_inputs\<close>. With a cache the mask handed to
  every layer is \<^verbatim>\<open>None\<close>.
\<close>

fun Decoder_layers ::
  "DecoderLayer list \<Rightarrow> nat \<Rightarrow> (nat \<Rightarrow> layer_noise) \<Rightarrow> tensor3 \<Rightarrow> tensor3 \<Rightarrow> mask3 \<Rightarrow>
     mask3 option \<Rightarrow> tensor4 option \<Rightarrow> error + (tensor3 \<times> tensor3 list)" where
  "Decoder_layers [] i noise output enc_out src_mask tgt_mask previous = Inr (output, [])"
| "Decoder_layers (layer # rest) i noise output enc_out src_mask tgt_mask previous =
     (case (case previous of None \<Rightarrow> Inr None
            | Some p \<Rightarrow> (case select_1 p i of Inl e \<Rightarrow> Inl e | Inr pl \<Rightarrow> Inr (Some pl))) of
        Inl e \<Rightarrow> Inl e
      | Inr prev_layer \<Rightarrow>
          let tgt_mask = (case previous of None \<Rightarrow> tgt_mask | Some _ \<Rightarrow> None)
          in case DecoderLayer_forward layer (noise i) output enc_out src_mask tgt_mask prev_layer of
               Inl e \<Rightarrow> Inl e
             | Inr (output', all_input) \<Rightarrow>
                 (case Decoder_layers rest (Suc i) noise output' enc_out src_mask tgt_mask previous of
                    Inl e \<Rightarrow> Inl e
                  | Inr (out, saved_inputs) \<Rightarrow> Inr (out, all_input # saved_inputs)))"

text \<open>
  \<^verbatim>\<open>Decoder.forward(tgt, enc_out, src_pad, tgt_pad, previous, timestep)\<close>. \<open>keep\<close> is
  the sample of the embedding dropout and \<open>noise i\<close> the samples of layer \<open>i\<close>.
\<close>

definition Decoder_forward ::
  "Decoder \<Rightarrow> (nat \<Rightarrow> nat \<Rightarrow> nat \<Rightarrow> bool) \<Rightarrow> (nat \<Rightarrow> layer_noise) \<Rightarrow> int list list \<Rightarrow> tensor3 \<Rightarrow>
     8 word list list \<Rightarrow> 8 word list list \<Rightarrow> tensor4 option \<Rightarrow> int \<Rightarrow> error + (tensor3 \<times> tensor4)" where
  "Decoder_forward dec keep noise tgt enc_out src_pad tgt_pad previous timestep =
     (case Embedding_forward (embedding dec) keep tgt timestep of Inl e \<Rightarrow> Inl e
      | Inr output \<Rightarrow>
          let tgt_len = (case tgt of [] \<Rightarrow> 0 | row # _ \<Rightarrow> length row);
              src_mask = repeat_rows tgt_len src_pad
          in case make_tgt_mask tgt_len tgt_pad of Inl e \<Rightarrow> Inl e
             | Inr tgt_mask \<Rightarrow>
                 (case Decoder_layers (layers dec) 0 noise output enc_out src_mask (Some tgt_mask) previous of
                    Inl e \<Rightarrow> Inl e
                  | Inr (output', saved_inputs) \<Rightarrow>
                      (case stack_1 saved_inputs of Inl e \<Rightarrow> Inl e
                       | Inr all_input \<Rightarrow> Inr (output', all_input))))"

text \<open>Concrete samples used in examples.\<close>

definition zero_sample :: "nat \<Rightarrow> nat \<Rightarrow> real" where
  "zero_sample i j = 0"

definition keep_all :: "nat \<Rightarrow> nat \<Rightarrow> nat \<Rightarrow> bool" where
  "keep_all b i j = True"

definition zero_samples :: "nat \<Rightarrow> nat \<Rightarrow> nat \<Rightarrow> real" where
  "zero_samples k i j = 0"

definition keep_all_4 :: "nat \<Rightarrow> nat \<Rightarrow> nat \<Rightarrow> nat \<Rightarrow> bool" where
  "keep_all_4 b h i j = True"

text \<open>
  A decoder whose layers have the fused query/key/value projection of their self-attention
  replaced: layer \<open>i\<close> gets \<open>w i\<close>.
\<close>

definition replace_self_qkv :: "(nat \<Rightarrow> Linear) \<Rightarrow> Decoder \<Rightarrow> Decoder" where
  "replace_self_qkv w dec =
     dec\<lparr> layers := map (\<lambda>(i, l). l\<lparr> self_attn := (self_attn l)\<lparr> linear_qkv := w i \<rparr> \<rparr>)
                          (enumerate 0 (layers dec)) \<rparr>"



section \<open>Shapes and well-formed modules\<close>

definition is_mat :: "nat \<Rightarrow> nat \<Rightarrow> 'a list list \<Rightarrow> bool" where
  "is_mat L D m = (length m = L \<and> list_all (\<lambda>r. length r = D) m)"

definition is_tensor3 :: "nat \<Rightarrow> nat \<Rightarrow> nat \<Rightarrow> 'a list list list \<Rightarrow> bool" where
  "is_tensor3 B L D x = (length x = B \<and> list_all (is_mat L D) x)"

definition is_tensor4 :: "nat \<Rightarrow> nat \<Rightarrow> nat \<Rightarrow> nat \<Rightarrow> 'a list list list list \<Rightarrow> bool" where
  "is_tensor4 B N L D x = (length x = B \<and> list_all (is_tensor3 N L D) x)"

text \<open>The parameters of a module have the shapes its constructor gives them.\<close>

definition well_formed_Linear :: "nat \<Rightarrow> nat \<Rightarrow> Linear \<Rightarrow> bool" where
  "well_formed_Linear n_in n_out l =
     (in_features l = n_in \<and> out_features l = n_out \<and>
      is_mat n_out n_in (lin_weight l) \<and> length (lin_bias l) = n_out)"

definition well_formed_LayerNorm :: "nat \<Rightarrow> LayerNorm \<Rightarrow> bool" where
  "well_formed_LayerNorm D lnorm =
     (normalized_shape lnorm = D \<and> length (ln_weight lnorm) = D \<and> length (ln_bias lnorm) = D)"

definition well_formed_attention :: "nat \<Rightarrow> MultiHeadedAttention \<Rightarrow> bool" where
  "well_formed_attention D m =
     (0 < head_count m \<and> 0 < dim_per_head m \<and> head_count m * dim_per_head m = int D \<and>
      well_formed_Linear D D (linear_q m) \<and> well_formed_Linear D (2 * D) (linear_kv m) \<and>
      well_formed_Linear D (3 * D) (linear_qkv m) \<and> well_formed_Linear D D (final_linear m))"

definition well_formed_FeedForward :: "nat \<Rightarrow> FeedForward \<Rightarrow> bool" where
  "well_formed_FeedForward D ff =
     (well_formed_Linear D (out_features (linear_in ff)) (linear_in ff) \<and>
      well_formed_Linear (out_features (linear_in ff)) D (linear_out ff))"

definition well_formed_DecoderLayer :: "nat \<Rightarrow> DecoderLayer \<Rightarrow> bool" where
  "well_formed_DecoderLayer D l =
     (well_formed_attention D (self_attn l) \<and> well_formed_attention D (src_attn l) \<and>
      well_formed_FeedForward D (feed_forward l) \<and> well_formed_LayerNorm D (norm_0 l) \<and>
      well_formed_LayerNorm D (norm_1 l) \<and> well_formed_LayerNorm D (norm_2 l))"

definition well_formed_Decoder :: "Decoder \<Rightarrow> bool" where
  "well_formed_Decoder dec =
     (well_formed_Embedding (embedding dec) \<and> layers dec \<noteq> [] \<and>
      list_all (well_formed_DecoderLayer (nat (embedding_dim (embedding dec)))) (layers dec))"

text \<open>
  The inputs of the successive layers when the decoder runs without a cache: the first
  layer reads \<open>x\<close>, every further layer the output of the layer before it.
\<close>

fun layer_inputs ::
  "DecoderLayer list \<Rightarrow> nat \<Rightarrow> (nat \<Rightarrow> layer_noise) \<Rightarrow> tensor3 \<Rightarrow> tensor3 \<Rightarrow> mask3 \<Rightarrow> mask3 \<Rightarrow>
     tensor3 list" where
  "layer_inputs [] i noise x enc_out src_mask tgt_mask = []"
| "layer_inputs (layer # rest) i noise x enc_out src_mask tgt_mask =
     x # (case DecoderLayer_forward layer (noise i) x enc_out src_mask (Some tgt_mask) None of
            Inl e \<Rightarrow> []
          | Inr (y, all_input) \<Rightarrow> layer_inputs rest (Suc i) noise y enc_out src_mask tgt_mask)"

text \<open>
  A decoder as the constructors build one: an embedding of two features with the positional
  table of 5000 rows, and one layer of two heads over two features; dropout is disabled.
\<close>

definition pe_example :: mat where
  "pe_example = (case positional_encoding_2 2 5000 of Inl e \<Rightarrow> [] | Inr table \<Rightarrow> table)"

definition attn_example_2 :: MultiHeadedAttention where
  "attn_example_2 =
     \<lparr> dim_per_head = 1, head_count = 2,
       linear_q = \<lparr> in_features = 2, out_features = 2, lin_weight = [[1 / 2, 0], [0, 1 / 2]],
                    lin_bias = [0, 0] \<rparr>,
       linear_kv = \<lparr> in_features = 2, out_features = 4,
                     lin_weight = [[1 / 2, 0], [0, 1 / 2], [1 / 2, 0], [0, 1 / 2]],
                     lin_bias = [0, 0, 0, 0] \<rparr>,
       linear_qkv = \<lparr> in_features = 2, out_features = 6,
                      lin_weight = [[1 / 2, 0], [0, 1 / 2], [1 / 2, 0], [0, 1 / 2], [1 / 2, 0], [0, 1 / 2]],
                      lin_bias = [0, 0, 0, 0, 0, 0] \<rparr>,
       mha_dropout = \<lparr> dropout_p = 0, dropout_training = False \<rparr>,
       final_linear = \<lparr> in_features = 2, out_features = 2, lin_weight = [[1 / 2, 0], [0, 1 / 2]],
                        lin_bias = [0, 0] \<rparr> \<rparr>"

definition decoder_example :: Decoder where
  "decoder_example =
     \<lparr> embedding = \<lparr> word_padding_idx = 0, embedding_dim = 2,
                     emb_weight = [[0, 0], [1 / 2, - 1 / 2]], pe = pe_example,
                     emb_dropout = \<lparr> dropout_p = 0, dropout_training = False \<rparr> \<rparr>,
       layers = [\<lparr> self_attn = attn_example_2, src_attn = attn_example_2,
                   feed_forward =
                     \<lparr> linear_in = \<lparr> in_features = 2, out_features = 2,
                                     lin_weight = [[1 / 2, 0], [0, 1 / 2]], lin_bias = [0, 0] \<rparr>,
                       linear_out = \<lparr> in_features = 2, out_features = 2,
                                      lin_weight = [[1 / 2, 0], [0, 1 / 2]], lin_bias = [0, 0] \<rparr>,
                       ff_dropout = \<lparr> dropout_p = 0, dropout_training = False \<rparr> \<rparr>,
                   norm_0 = \<lparr> normalized_shape = 2, ln_weight = [1, 1], ln_bias = [0, 0],
                              ln_eps = 1 / 10 ^ 5 \<rparr>,
                   norm_1 = \<lparr> normalized_shape = 2, ln_weight = [1, 1], ln_bias = [0, 0],
                              ln_eps = 1 / 10 ^ 5 \<rparr>,
                   norm_2 = \<lparr> normalized_shape = 2, ln_weight = [1, 1], ln_bias = [0, 0],
                              ln_eps = 1 / 10 ^ 5 \<rparr>,
                   layer_dropout = \<lparr> dropout_p = 0, dropout_training = False \<rparr> \<rparr>] \<rparr>"

definition noise_example :: "nat \<Rightarrow> layer_noise" where
  "noise_example i =
     \<lparr> keep_self_attn = keep_all_4, keep_0 = keep_all, keep_src_attn = keep_all_4,
       keep_1 = keep_all, keep_ff = keep_all, keep_2 = keep_all \<rparr>"

section \<open>Attention of one batch element\<close>



definition scaled_scores :: "MultiHeadedAttention \<Rightarrow> tensor3 \<Rightarrow> tensor3 \<Rightarrow> error + tensor4" where
  "scaled_scores m q k =
     (case split_head m q of Inl e \<Rightarrow> Inl e
      | Inr q' \<Rightarrow>
     (case split_head m k of Inl e \<Rightarrow> Inl e
      | Inr k' \<Rightarrow>
          matmul_qk (map (map (scale_mat (real_of_int (dim_per_head m) powr (- 1 / 2)))) q') k'))"



section \<open>Properties of the positional encoding\<close>

lemma length_assign_stride2 [simp]: "length (assign_stride2 s row vals) = length row"
  by (simp add: assign_stride2_def)

lemma div_term_powr:
  assumes "0 < (d::int)"
  shows "real p * exp (real j * - (ln 10000 / real_of_int d)) = real p / 10000 powr (real j / real_of_int d)"
proof -
  have "10000 powr (real j / real_of_int d) = exp (real j / real_of_int d * ln (10000::real))"
    by (simp add: powr_def)
  then show ?thesis
    by (simp add: exp_minus divide_inverse)
qed

lemma div_term_powr':
  assumes "0 < (d::int)"
  shows "real p * exp (- (real j * ln 10000 / real_of_int d)) = real p / 10000 powr (real j / real_of_int d)"
  using div_term_powr [OF assms, of p j] by simp

lemma nth_assign_stride2:
  assumes "c < length row"
  shows "assign_stride2 s row vals ! c =
     (if s \<le> c \<and> even (c - s)
              then (if length vals = 1 then vals ! 0 else vals ! ((c - s) div 2))
              else row ! c)"
  using assms by (simp add: assign_stride2_def del: even_diff_nat)

lemma positional_encoding_2_Inr:
  assumes "0 < d" "even d" "0 \<le> n"
  shows "positional_encoding_2 d n =
     Inr (map (\<lambda>pos. assign_stride2 1
                 (assign_stride2 0 (replicate (nat d) 0)
                    (map (\<lambda>j. sin (real pos * exp (real (2 * j) * - (ln 10000 / real_of_int d)))) [0..<nat d div 2]))
                 (map (\<lambda>j. cos (real pos * exp (real (2 * j) * - (ln 10000 / real_of_int d)))) [0..<nat d div 2]))
            [0..<nat n])"
proof -
  have e: "even (nat d)" using assms by (simp add: even_nat_iff)
  then have h: "(nat d + 1) div 2 = nat d div 2" by (auto elim!: evenE)
  have z: "zip (replicate (nat n) r) [0..<nat n] = map (\<lambda>pos. (r, pos)) [0..<nat n]" for r :: "real list"
    by (rule nth_equalityI) simp_all
  show ?thesis
    using assms unfolding positional_encoding_2_def Let_def h
    by (simp add: z zip_map1 zip_same_conv_map comp_def)
qed

text \<open>
  Claim C2. For an even positive dimension \<open>d\<close> and a table length \<open>n\<close>, the generator
  returns a table of \<open>n\<close> rows of \<open>d\<close> columns whose row \<open>p\<close> holds
  \<open>sin (p / 10000 ^ (2i / d))\<close> in column \<open>2i\<close> and \<open>cos (p / 10000 ^ (2i / d))\<close> in
  column \<open>2i + 1\<close>. The table is a function of \<open>d\<close> and \<open>n\<close> alone.
\<close>

theorem positional_encoding_2_table:
  assumes "0 < d" "even d" "0 \<le> n"
  shows "\<exists>table. positional_encoding_2 d n = Inr table \<and> length table = nat n \<and>
           (\<forall>p<nat n. length (table ! p) = nat d \<and>
              (\<forall>i. 2 * i < nat d \<longrightarrow>
                 table ! p ! (2 * i) = sin (real p / 10000 powr (real (2 * i) / real_of_int d)) \<and>
                 table ! p ! (2 * i + 1) = cos (real p / 10000 powr (real (2 * i) / real_of_int d))))"
proof -
  have e: "even (nat d)" using assms by (simp add: even_nat_iff)
  show ?thesis
  proof (intro exI conjI allI impI)
    show "positional_encoding_2 d n = Inr (map (\<lambda>pos. assign_stride2 1
                 (assign_stride2 0 (replicate (nat d) 0)
                    (map (\<lambda>j. sin (real pos * exp (real (2 * j) * - (ln 10000 / real_of_int d)))) [0..<nat d div 2]))
                 (map (\<lambda>j. cos (real pos * exp (real (2 * j) * - (ln 10000 / real_of_int d)))) [0..<nat d div 2]))
            [0..<nat n])" (is "_ = Inr ?t")
      by (rule positional_encoding_2_Inr [OF assms])
    show "length ?t = nat n" by simp
    fix p assume p: "p < nat n"
    show "length (?t ! p) = nat d" using p by simp
    fix i assume i: "2 * i < nat d"
    then have i1: "2 * i + 1 < nat d" using e by (auto elim!: evenE)
    have i2: "i < nat d div 2" using i e by (auto elim!: evenE)
    have ne1: "nat d div 2 = Suc 0 \<Longrightarrow> i = 0" using i2 by simp
    show "?t ! p ! (2 * i) = sin (real p / 10000 powr (real (2 * i) / real_of_int d))"
      using p i i2 ne1 by (auto simp add: nth_assign_stride2 div_term_powr' [OF assms(1)] simp del: of_nat_mult)
    show "?t ! p ! (2 * i + 1) = cos (real p / 10000 powr (real (2 * i) / real_of_int d))"
      using p i1 i2 ne1 by (auto simp add: nth_assign_stride2 div_term_powr' [OF assms(1)] simp del: of_nat_mult)
  qed
qed

theorem positional_encoding_2_table_witness:
  "\<exists>table. positional_encoding_2 2 1 = Inr table \<and> length table = 1 \<and>
     length (table ! 0) = 2 \<and> table ! 0 ! 0 = 0 \<and> table ! 0 ! 1 = 1"
  using positional_encoding_2_table [of 2 1] by auto

section \<open>Properties of the embedding\<close>

lemma collect_map_Inr:
  "(\<And>x. x \<in> set xs \<Longrightarrow> f x = Inr (g x)) \<Longrightarrow> collect (map f xs) = Inr (map g xs)"
  by (induction xs) simp_all

lemma collect_map_isl:
  assumes "xs \<noteq> []" "\<And>x. x \<in> set xs \<Longrightarrow> isl (f x)"
  shows "isl (collect (map f xs))"
proof (cases xs)
  case Nil
  then show ?thesis using assms by simp
next
  case (Cons a l)
  then have "isl (f a)" using assms by simp
  then obtain e where "f a = Inl e" by (auto simp: isl_def)
  then show ?thesis using Cons by simp
qed

lemma collect_map_not_isl:
  "(\<And>x. x \<in> set xs \<Longrightarrow> \<not> isl (f x)) \<Longrightarrow> \<not> isl (collect (map f xs))"
  by (induction xs) (auto simp: isl_def split: sum.splits)

lemma length_py_slice:
  "0 \<le> a \<Longrightarrow> 0 \<le> b \<Longrightarrow> length (py_slice xs a b) = min (nat b) (length xs) - min (nat a) (length xs)"
  by (auto simp: py_slice_def slice_index_def Let_def)

lemma nth_py_slice:
  "0 \<le> a \<Longrightarrow> 0 \<le> b \<Longrightarrow> i < length (py_slice xs a b) \<Longrightarrow> py_slice xs a b ! i = xs ! (nat a + i)"
  by (auto simp: py_slice_def slice_index_def Let_def min_def split: if_splits)

lemma py_slice_set: "set (py_slice xs a b) \<subseteq> set xs"
  unfolding py_slice_def Let_def by (meson set_take_subset set_drop_subset subset_trans)

lemma add_vec_same:
  "length u = length v \<Longrightarrow> add_vec u v = Inr (map (\<lambda>(a, b). a + b) (zip u v))"
  by (simp add: add_vec_def broadcast2_def)

lemma positional_encoding_2_length:
  "positional_encoding_2 d n = Inr t \<Longrightarrow> length t = nat n"
  by (auto simp: positional_encoding_2_def Let_def split: if_splits)

text \<open>
  Claim C10. Whatever the arguments of the constructor, an embedding that it returns holds
  a positional table of exactly 5000 rows: the constructor has no parameter for the length
  and calls the generator with its default.
\<close>

theorem Embedding_init_table_rows:
  "Embedding_init d v pad dr smp = Inr e \<Longrightarrow> length (pe e) = 5000"
  by (auto simp: Embedding_init_def Let_def dest!: positional_encoding_2_length
      split: sum.splits if_splits)

theorem Embedding_init_table_rows_witness:
  "\<exists>e. Embedding_init 2 1 0 0 zero_sample = Inr e \<and> length (pe e) = 5000"
proof -
  have "\<exists>e. Embedding_init 2 1 0 0 zero_sample = Inr e"
    by (simp add: Embedding_init_def positional_encoding_2_Inr Let_def)
  then show ?thesis using Embedding_init_table_rows by blast
qed


lemma lookup_rows:
  assumes "token_batch (length w) L x"
  shows "collect (map (\<lambda>row. collect (map (lookup w) row)) x) = Inr (map (map (\<lambda>i. w ! nat i)) x)"
  using assms
  by (intro collect_map_Inr) (auto simp: token_batch_def list_all_iff lookup_def)

lemma add_mat_rows:
  assumes "length a = length b" "\<And>i. i < length a \<Longrightarrow> length (a ! i) = length (b ! i)"
  shows "add_mat a b = Inr (map (\<lambda>(u, v). map (\<lambda>(p, q). p + q) (zip u v)) (zip a b))"
proof -
  have "collect (map (\<lambda>(u, v). add_vec u v) (zip a b)) =
        Inr (map (\<lambda>(u, v). map (\<lambda>(p, q). p + q) (zip u v)) (zip a b))"
    using assms
    by (intro collect_map_Inr) (auto simp: set_zip add_vec_same)
  then show ?thesis using assms by (simp add: add_mat_def broadcast2_def)
qed


lemma embed_row:
  assumes w: "list_all (\<lambda>r. length r = D) w" and pe: "list_all (\<lambda>r. length r = D) tab"
      and row: "length row = L" "list_all (\<lambda>i. 0 \<le> i \<and> i < int (length w)) row"
      and t: "0 \<le> t" "t + int L \<le> int (length tab)"
  shows "add_mat (scale_mat c (map (\<lambda>i. w ! nat i) row)) (py_slice tab t (t + int L)) =
         Inr (map (\<lambda>(l, i). map (\<lambda>(a, q). a * c + q) (zip (w ! nat i) (tab ! (nat t + l))))
                (enumerate 0 row))"
proof -
  let ?a = "scale_mat c (map (\<lambda>i. w ! nat i) row)"
  let ?b = "py_slice tab t (t + int L)"
  have lb: "length ?b = L" using t by (simp add: length_py_slice)
  have la: "length ?a = L" using row by (simp add: scale_mat_def)
  have rows_w: "length (w ! nat (row ! l)) = D" if "l < L" for l
  proof -
    have "0 \<le> row ! l \<and> row ! l < int (length w)"
      using row that by (simp add: list_all_length)
    then have "nat (row ! l) < length w" by linarith
    then show ?thesis using w by (simp add: list_all_length)
  qed
  have nb: "?b ! l = tab ! (nat t + l)" if "l < L" for l
    using that t lb by (simp add: nth_py_slice)
  have rows_b: "length (?b ! l) = D" if "l < L" for l
  proof -
    have "nat t + l < length tab" using that t by linarith
    then show ?thesis using pe nb [OF that] by (simp add: list_all_length)
  qed
  have na: "?a ! l = map (\<lambda>v. v * c) (w ! nat (row ! l))" if "l < L" for l
    using that row by (simp add: scale_mat_def)
  have "add_mat ?a ?b = Inr (map (\<lambda>(u, v). map (\<lambda>(p, q). p + q) (zip u v)) (zip ?a ?b))"
    using la lb rows_w rows_b na by (intro add_mat_rows) simp_all
  also have "map (\<lambda>(u, v). map (\<lambda>(p, q). p + q) (zip u v)) (zip ?a ?b) =
             map (\<lambda>(l, i). map (\<lambda>(a, q). a * c + q) (zip (w ! nat i) (tab ! (nat t + l))))
                (enumerate 0 row)"
  proof (rule nth_equalityI)
    show "length (map (\<lambda>(u, v). map (\<lambda>(p, q). p + q) (zip u v)) (zip ?a ?b)) =
          length (map (\<lambda>(l, i). map (\<lambda>(a, q). a * c + q) (zip (w ! nat i) (tab ! (nat t + l))))
                (enumerate 0 row))"
      using la lb row by simp
  next
    fix l assume "l < length (map (\<lambda>(u, v). map (\<lambda>(p, q). p + q) (zip u v)) (zip ?a ?b))"
    then have l: "l < L" using la lb by simp
    then show "map (\<lambda>(u, v). map (\<lambda>(p, q). p + q) (zip u v)) (zip ?a ?b) ! l =
          map (\<lambda>(l, i). map (\<lambda>(a, q). a * c + q) (zip (w ! nat i) (tab ! (nat t + l))))
                (enumerate 0 row) ! l"
      using la lb row na [OF l] nb [OF l]
      by (simp add: nth_enumerate_eq zip_map1 split_def)
  qed
  finally show ?thesis .
qed

lemma seq_len_token_batch:
  "token_batch V L x \<Longrightarrow> (case x of [] \<Rightarrow> 0 | row # _ \<Rightarrow> length row) = L"
  by (cases x) (auto simp: token_batch_def)

lemma Embedding_forward_Inr:
  assumes wf: "well_formed_Embedding emb"
      and x: "token_batch (length (emb_weight emb)) L x"
      and t: "0 \<le> t" "t + int L \<le> int (length (pe emb))"
  shows "Embedding_forward emb keep x t =
     Inr (Dropout_forward (emb_dropout emb) keep
       (map (\<lambda>row. map (\<lambda>(l, i). map (\<lambda>(w, q). (w * sqrt (real_of_int (embedding_dim emb)) + q) * sqrt (real_of_int (embedding_dim emb)))
                (zip (emb_weight emb ! nat i) (pe emb ! (nat t + l)))) (enumerate 0 row)) x))"
proof -
  let ?c = "sqrt (real_of_int (embedding_dim emb))"
  let ?pos = "py_slice (pe emb) t (t + int L)"
  let ?g = "\<lambda>row. map (\<lambda>(l, i). map (\<lambda>(a, q). a * ?c + q) (zip (emb_weight emb ! nat i) (pe emb ! (nat t + l))))
                (enumerate 0 row)"
  have d: "\<not> embedding_dim emb < 0" and pw: "real_of_int (embedding_dim emb) powr (1 / 2) = ?c"
    using wf by (simp_all add: well_formed_Embedding_def powr_half_sqrt)
  have 1: "collect (map (\<lambda>row. collect (map (lookup (emb_weight emb)) row)) x) =
           Inr (map (map (\<lambda>i. emb_weight emb ! nat i)) x)"
    by (rule lookup_rows [OF x])
  have 2: "collect (map (\<lambda>m. add_mat (scale_mat ?c m) ?pos) (map (map (\<lambda>i. emb_weight emb ! nat i)) x)) =
           Inr (map ?g x)"
    unfolding map_map comp_def
  proof (rule collect_map_Inr)
    fix row assume "row \<in> set x"
    then have "length row = L" "list_all (\<lambda>i. 0 \<le> i \<and> i < int (length (emb_weight emb))) row"
      using x by (auto simp: token_batch_def list_all_iff)
    then show "add_mat (scale_mat ?c (map (\<lambda>i. emb_weight emb ! nat i) row)) ?pos = Inr (?g row)"
      using wf t by (intro embed_row [where D = "nat (embedding_dim emb)"])
        (simp_all add: well_formed_Embedding_def)
  qed
  have 3: "map (scale_mat ?c) (map ?g x) =
           map (\<lambda>row. map (\<lambda>(l, i). map (\<lambda>(w, q). (w * ?c + q) * ?c)
                (zip (emb_weight emb ! nat i) (pe emb ! (nat t + l)))) (enumerate 0 row)) x"
    by (simp add: scale_mat_def split_def comp_def)
  show ?thesis
    by (simp only: Embedding_forward_def 1 sum.case Let_def seq_len_token_batch [OF x] d if_False 2 pw 3)
qed


text \<open>
  Claim C5. For a batch of token ids within the table and a time step within the capacity
  of the positional table, the embedding is the dropout of
  \<open>(E[x] * sqrt d + pe[t + l]) * sqrt d\<close>: the scale \<open>sqrt d\<close> is applied at the lookup
  and again after the positional vectors are added.
\<close>

theorem Embedding_forward_value:
  assumes wf: "well_formed_Embedding emb"
      and x: "token_batch (length (emb_weight emb)) L x"
      and t: "0 \<le> t" "t + int L \<le> int (length (pe emb))"
  shows "Embedding_forward emb keep x t =
     Inr (Dropout_forward (emb_dropout emb) keep
       (map (\<lambda>row. map (\<lambda>(l, i). map (\<lambda>(w, q). (w * sqrt (real_of_int (embedding_dim emb)) + q) * sqrt (real_of_int (embedding_dim emb)))
                (zip (emb_weight emb ! nat i) (pe emb ! (nat t + l)))) (enumerate 0 row)) x))"
  using assms by (rule Embedding_forward_Inr)

lemma add_mat_mismatch:
  "length a \<noteq> length b \<Longrightarrow> length a \<noteq> 1 \<Longrightarrow> length b \<noteq> 1 \<Longrightarrow> add_mat a b = Inl RuntimeError"
  by (simp add: add_mat_def broadcast2_def)

lemma add_mat_empty_slice: "length a = 1 \<Longrightarrow> add_mat a [] = Inr []"
  by (simp add: add_mat_def broadcast2_def)

lemma add_mat_single_row:
  assumes "length b = 1" "\<And>u. u \<in> set a \<Longrightarrow> length u = length (hd b)"
  shows "\<not> isl (add_mat a b)"
proof -
  have c: "collect (map (\<lambda>x. add_vec x (hd b)) a) = Inr (map (\<lambda>x. map (\<lambda>(p, q). p + q) (zip x (hd b))) a)"
    using assms by (intro collect_map_Inr) (simp add: add_vec_same)
  have z: "zip a b = map (\<lambda>x. (x, hd b)) a" if "length a = length b"
    using that assms(1) by (cases a; cases b) auto
  show ?thesis
    using assms(1) c by (auto simp: add_mat_def broadcast2_def comp_def z)
qed

lemma Embedding_forward_isl_iff:
  assumes wf: "well_formed_Embedding emb"
      and x: "token_batch (length (emb_weight emb)) L x"
      and t: "0 \<le> t"
  shows "isl (Embedding_forward emb keep x t) \<longleftrightarrow>
           (int (length (pe emb)) < t + int L \<and> 2 \<le> L \<and> t + 1 \<noteq> int (length (pe emb)))"
proof -
  let ?c = "sqrt (real_of_int (embedding_dim emb))"
  let ?pos = "py_slice (pe emb) t (t + int L)"
  let ?looked = "map (map (\<lambda>i. emb_weight emb ! nat i)) x"
  let ?f = "\<lambda>m. add_mat (scale_mat ?c m) ?pos"
  have d: "\<not> embedding_dim emb < 0"
    using wf by (simp add: well_formed_Embedding_def)
  have 1: "collect (map (\<lambda>row. collect (map (lookup (emb_weight emb)) row)) x) = Inr ?looked"
    by (rule lookup_rows [OF x])
  have unfold: "isl (Embedding_forward emb keep x t) = isl (collect (map ?f ?looked))"
    by (simp only: Embedding_forward_def 1 sum.case Let_def seq_len_token_batch [OF x] d if_False)
       (simp split: sum.splits)
  have ne: "?looked \<noteq> []" using x by (simp add: token_batch_def)
  have len: "length (scale_mat ?c m) = L" if "m \<in> set ?looked" for m
    using that x by (auto simp: scale_mat_def token_batch_def list_all_iff)
  have rows: "length u = nat (embedding_dim emb)" if "m \<in> set ?looked" "u \<in> set (scale_mat ?c m)" for m u
  proof -
    from that obtain row i where "row \<in> set x" "i \<in> set row" "u = map (\<lambda>v. v * ?c) (emb_weight emb ! nat i)"
      by (auto simp: scale_mat_def)
    moreover from this have "0 \<le> i \<and> i < int (length (emb_weight emb))"
      using x by (auto simp: token_batch_def list_all_iff)
    then have "nat i < length (emb_weight emb)" by linarith
    ultimately show ?thesis using wf by (simp add: well_formed_Embedding_def list_all_length)
  qed
  have lpos: "length ?pos = min (nat (t + int L)) (length (pe emb)) - min (nat t) (length (pe emb))"
    using t by (simp add: length_py_slice)
  have rows_pos: "length r = nat (embedding_dim emb)" if "r \<in> set ?pos" for r
    using that wf py_slice_set [of "pe emb" t "t + int L"]
    by (auto simp: well_formed_Embedding_def list_all_iff)
  show ?thesis
  proof (cases "int (length (pe emb)) < t + int L \<and> 2 \<le> L \<and> t + 1 \<noteq> int (length (pe emb))")
    case True
    then have "length ?pos \<noteq> L" "length ?pos \<noteq> 1" "L \<noteq> 1"
      using t lpos by (auto simp: min_def split: if_splits)
    then have "isl (?f m)" if "m \<in> set ?looked" for m
      using len [OF that] by (simp add: add_mat_mismatch)
    then have "isl (collect (map ?f ?looked))"
      by (intro collect_map_isl [OF ne]) 
    then show ?thesis using True unfold by simp
  next
    case False
    have "\<not> isl (?f m)" if m: "m \<in> set ?looked" for m
    proof -
      consider (fits) "t + int L \<le> int (length (pe emb))"
        | (short) "int (length (pe emb)) < t + int L" "L \<le> 1"
        | (last) "int (length (pe emb)) < t + int L" "2 \<le> L" "t + 1 = int (length (pe emb))"
        using False by linarith
      then show ?thesis
      proof cases
        case fits
        then have "length ?pos = L" using t lpos by (auto simp: min_def)
        moreover have "length (scale_mat ?c m ! i) = length (?pos ! i)" if "i < L" for i
          using that rows [OF m, of "scale_mat ?c m ! i"] rows_pos [of "?pos ! i"] len [OF m] \<open>length ?pos = L\<close>
          by simp
        ultimately show ?thesis using len [OF m] by (simp add: add_mat_rows)
      next
        case short
        then have "length ?pos = 0" using t lpos by (auto simp: min_def)
        then show ?thesis using len [OF m] short
          by (cases "L = 0") (auto simp: add_mat_empty_slice add_mat_rows)
      next
        case last
        then have l1: "length ?pos = 1" using t lpos by (auto simp: min_def)
        then have "hd ?pos \<in> set ?pos" by (cases ?pos) auto
        then have "length (hd ?pos) = nat (embedding_dim emb)" by (rule rows_pos)
        then show ?thesis using rows [OF m] by (intro add_mat_single_row [OF l1]) simp
      qed
    qed
    then have "\<not> isl (collect (map ?f ?looked))"
      by (rule collect_map_not_isl)
    then show ?thesis using False unfold by simp
  qed
qed


text \<open>
  Claim C7, amended. The code has no check of the time step against the table: the only
  failure is the shape error of the broadcast addition. For a well-formed batch of \<open>L\<close>
  tokens per row and \<open>t \<ge> 0\<close> the call fails exactly when \<open>t + L\<close> exceeds the table
  length, \<open>L \<ge> 2\<close> and \<open>t\<close> is not the last row of the table; within the capacity it
  succeeds, and beyond it a clipped slice of one row (or none, for \<open>L \<le> 1\<close>) is broadcast.
\<close>

theorem Embedding_forward_overflow:
  assumes "well_formed_Embedding emb"
      and "token_batch (length (emb_weight emb)) L x"
      and "0 \<le> t"
  shows "isl (Embedding_forward emb keep x t) \<longleftrightarrow>
           (int (length (pe emb)) < t + int L \<and> 2 \<le> L \<and> t + 1 \<noteq> int (length (pe emb)))"
  using assms by (rule Embedding_forward_isl_iff)

lemma positional_encoding_2_rows:
  "positional_encoding_2 d n = Inr t \<Longrightarrow> list_all (\<lambda>r. length r = nat d) t"
  by (auto simp: positional_encoding_2_def Let_def list_all_iff set_zip split: if_splits)

lemma positional_encoding_2_pos:
  "positional_encoding_2 d n = Inr t \<Longrightarrow> 0 < d"
  by (auto simp: positional_encoding_2_def Let_def split: if_splits)

lemma Embedding_init_well_formed:
  assumes "Embedding_init d v pad dr smp = Inr e"
  shows "well_formed_Embedding e \<and> length (emb_weight e) = nat v \<and> length (pe e) = 5000"
proof -
  obtain t where t: "positional_encoding_2 d 5000 = Inr t"
    using assms by (auto simp: Embedding_init_def split: sum.splits)
  have e: "pe e = t \<and> embedding_dim e = d \<and>
        emb_weight e = map (\<lambda>i. map (\<lambda>j. if i = nat (if pad < 0 then v + pad else pad) then 0 else smp i j)
                                   [0..<nat d]) [0..<nat v]"
    using assms t by (auto simp: Embedding_init_def Let_def split: if_splits)
  show ?thesis
    using e positional_encoding_2_length [OF t] positional_encoding_2_rows [OF t]
      positional_encoding_2_pos [OF t]
    by (simp add: well_formed_Embedding_def list_all_iff)
qed

lemma Embedding_init_example: "\<exists>e. Embedding_init 2 1 0 0 zero_sample = Inr e"
  by (simp add: Embedding_init_def positional_encoding_2_Inr Let_def)

text \<open>
  The claim as stated fails: on a constructed embedding (5000 rows) two tokens at time step
  4999 reach beyond the table and the call returns.
\<close>

theorem Embedding_forward_overflow_counterexample:
  "case Embedding_init 2 1 0 0 zero_sample of Inl e \<Rightarrow> False
   | Inr emb \<Rightarrow> \<not> isl (Embedding_forward emb keep_all [[0, 0]] 4999)"
proof -
  obtain e where e: "Embedding_init 2 1 0 0 zero_sample = Inr e"
    using Embedding_init_example by blast
  note wf = Embedding_init_well_formed [OF e]
  have "token_batch (length (emb_weight e)) 2 [[0, 0]]"
    using wf by (simp add: token_batch_def)
  then have "\<not> isl (Embedding_forward e keep_all [[0, 0]] 4999)"
    using wf by (subst Embedding_forward_isl_iff [where L = 2]) simp_all
  then show ?thesis using e by simp
qed

theorem Embedding_forward_overflow_witness:
  "case Embedding_init 2 1 0 0 zero_sample of Inl e \<Rightarrow> False
   | Inr emb \<Rightarrow> isl (Embedding_forward emb keep_all [[0, 0, 0]] 4998) \<and>
               \<not> isl (Embedding_forward emb keep_all [[0, 0, 0]] 4997)"
proof -
  obtain e where e: "Embedding_init 2 1 0 0 zero_sample = Inr e"
    using Embedding_init_example by blast
  note wf = Embedding_init_well_formed [OF e]
  have tb: "token_batch (length (emb_weight e)) 3 [[0, 0, 0]]"
    using wf by (simp add: token_batch_def)
  have "isl (Embedding_forward e keep_all [[0, 0, 0]] 4998)"
    using wf Embedding_forward_overflow [OF _ tb, of 4998 keep_all] by simp
  moreover have "\<not> isl (Embedding_forward e keep_all [[0, 0, 0]] 4997)"
    using wf Embedding_forward_overflow [OF _ tb, of 4997 keep_all] by simp
  ultimately show ?thesis using e by simp
qed

section \<open>The decoder self-attention mask\<close>

lemma py_slice_0: "py_slice xs 0 (int n) = take n xs"
  by (simp add: py_slice_def slice_index_def Let_def min_def)

lemma take_table:
  "L \<le> N \<Longrightarrow> map (take L) (take L (map (\<lambda>i. map (f i) [0..<N]) [0..<N])) =
     map (\<lambda>i. map (f i) [0..<L]) [0..<L]"
  by (simp add: take_map take_upt min_def del: upt_Suc)

lemma upper_slice:
  assumes "L \<le> 1000"
  shows "map (\<lambda>row. py_slice row 0 (int L)) (py_slice upper_triangle 0 (int L)) =
         map (\<lambda>i. map (\<lambda>j. if i < j then 1 else 0) [0..<L]) [0..<L]"
  unfolding py_slice_0 upper_triangle_def using assms by (rule take_table)

lemma byte_flag_sum:
  assumes "(a::8 word) = 0 \<or> a = 1"
  shows "(if 0 < a + (if q < k then 1 else 0) then 1 else 0 :: 8 word) =
         (if (q::nat) < k \<or> a \<noteq> 0 then 1 else 0)"
  using assms by (auto simp: word_greater_zero_iff)

lemma make_tgt_mask_Inr:
  assumes L: "L \<le> 1000"
      and pad: "list_all (\<lambda>row. length row = L) tgt_pad"
  shows "make_tgt_mask L tgt_pad =
     Inr (map (\<lambda>row. map (\<lambda>q. map (\<lambda>k. if 0 < row ! k + (if q < k then 1 else 0) then 1 else 0) [0..<L]) [0..<L]) tgt_pad)"
proof -
  let ?upper = "map (\<lambda>i. map (\<lambda>j. if i < j then 1 else 0 :: 8 word) [0..<L]) [0..<L]"
  have row: "add_mat (replicate L row) ?upper =
        Inr (map (\<lambda>q. map (\<lambda>k. row ! k + (if q < k then 1 else 0)) [0..<L]) [0..<L])"
    if "length row = L" for row :: "8 word list"
  proof -
    have "add_mat (replicate L row) ?upper =
       Inr (map (\<lambda>(u, v). map (\<lambda>(p, q). p + q) (zip u v)) (zip (replicate L row) ?upper))"
      using that by (intro add_mat_rows) simp_all
    also have "map (\<lambda>(u, v). map (\<lambda>(p, q). p + q) (zip u v)) (zip (replicate L row) ?upper) =
        map (\<lambda>q. map (\<lambda>k. row ! k + (if q < k then 1 else 0)) [0..<L]) [0..<L]"
      using that by (intro nth_equalityI) (simp_all)
    finally show ?thesis .
  qed
  have "collect (map (\<lambda>m. add_mat m ?upper) (repeat_rows L tgt_pad)) =
        Inr (map (\<lambda>row. map (\<lambda>q. map (\<lambda>k. row ! k + (if q < k then 1 else 0)) [0..<L]) [0..<L]) tgt_pad)"
    unfolding repeat_rows_def map_map comp_def
    using pad by (intro collect_map_Inr) (simp add: row list_all_iff)
  then show ?thesis
    unfolding make_tgt_mask_def Let_def upper_slice [OF L]
    by (simp add: gt_0_def comp_def)
qed

text \<open>
  Claim C4. Without a cache, for a target of \<open>L\<close> tokens (at most the 1000 of the buffer)
  and 0/1 padding flags, the self-attention mask is computed and its entry for batch \<open>b\<close>,
  query \<open>q\<close> and key \<open>k\<close> is set exactly when \<open>k > q\<close> (the strict upper triangle) or
  key \<open>k\<close> is padding: the byte addition followed by the threshold is the logical or.
  For \<open>L = 4\<close> without padding, entry (1, 2) is set and entry (2, 1) is not.
\<close>

theorem make_tgt_mask_is_or:
  assumes "L \<le> 1000"
      and "list_all (\<lambda>row. length row = L \<and> list_all (\<lambda>v. v = 0 \<or> v = 1) row) tgt_pad"
  shows "\<exists>m. make_tgt_mask L tgt_pad = Inr m \<and> length m = length tgt_pad \<and>
           (\<forall>b<length tgt_pad. length (m ! b) = L \<and>
              (\<forall>q<L. length (m ! b ! q) = L \<and>
                 (\<forall>k<L. m ! b ! q ! k = (if q < k \<or> tgt_pad ! b ! k \<noteq> 0 then 1 else 0))))"
proof -
  have pad: "list_all (\<lambda>row. length row = L) tgt_pad"
    using assms(2) by (simp add: list_all_iff)
  have flag: "tgt_pad ! b ! k = 0 \<or> tgt_pad ! b ! k = 1" if "b < length tgt_pad" "k < L" for b k
    using assms(2) that by (simp add: list_all_length)
  show ?thesis
    unfolding make_tgt_mask_Inr [OF assms(1) pad]
    by (simp add: byte_flag_sum [OF flag])
qed

theorem make_tgt_mask_is_or_witness:
  "\<exists>m. make_tgt_mask 4 [[0, 0, 0, 0]] = Inr m \<and> m ! 0 ! 1 ! 2 = 1 \<and> m ! 0 ! 2 ! 1 = 0"
  using make_tgt_mask_is_or [of 4 "[[0, 0, 0, 0]]"] by auto

section \<open>Construction of the attention module\<close>

text \<open>
  Claim C6, amended. The constructor does not compare \<open>model_dim\<close> with
  \<open>head_count\<close>: for a nonzero head count, a positive model dimension and a dropout rate
  in \<open>[0, 1]\<close> it returns a module with \<open>dim_per_head = model_dim div head_count\<close>,
  whether or not the division is exact.
\<close>

theorem MultiHeadedAttention_init_succeeds:
  assumes "hc \<noteq> 0" "0 < md" "0 \<le> dr" "dr \<le> 1"
  shows "\<exists>m. MultiHeadedAttention_init hc md dr smp = Inr m \<and>
              dim_per_head m = md div hc \<and> head_count m = hc"
  using assms by (simp add: MultiHeadedAttention_init_def)

theorem MultiHeadedAttention_init_succeeds_witness:
  "\<exists>m. MultiHeadedAttention_init 2 3 0 zero_samples = Inr m \<and> dim_per_head m = 1 \<and> head_count m = 2"
  using MultiHeadedAttention_init_succeeds [of 2 3 0 zero_samples] by simp

text \<open>The claim as stated fails: three features and two heads construct without error.\<close>

theorem MultiHeadedAttention_init_counterexample:
  "\<not> isl (MultiHeadedAttention_init 2 3 0 zero_samples) \<and> (3::int) mod 2 \<noteq> 0"
  by (simp add: MultiHeadedAttention_init_def)

section \<open>Decoder: the unused projection and the cache\<close>

lemma split_head_qkv: "split_head (m\<lparr> linear_qkv := w \<rparr>) x = split_head m x"
  by (auto simp: split_head_def)

lemma project_qkv: "project (m\<lparr> linear_qkv := w \<rparr>) q (Some mem) = project m q (Some mem)"
  by (simp add: project_def cong: sum.case_cong)

lemma MultiHeadedAttention_forward_memory:
  "MultiHeadedAttention_forward (m\<lparr> linear_qkv := w \<rparr>) keep q (Some mem) msk =
   MultiHeadedAttention_forward m keep q (Some mem) msk"
  by (simp add: MultiHeadedAttention_forward_def project_qkv split_head_qkv
      cong: sum.case_cong option.case_cong prod.case_cong)

lemma DecoderLayer_forward_qkv:
  "DecoderLayer_forward (l\<lparr> self_attn := (self_attn l)\<lparr> linear_qkv := w \<rparr> \<rparr>) noise x enc sm tm prev =
   DecoderLayer_forward l noise x enc sm tm prev"
  by (simp add: DecoderLayer_forward_def MultiHeadedAttention_forward_memory cong: sum.case_cong)

lemma Decoder_layers_qkv:
  "Decoder_layers (map (\<lambda>(j, l). l\<lparr> self_attn := (self_attn l)\<lparr> linear_qkv := w j \<rparr> \<rparr>) (enumerate n ls))
     i noise x enc sm tm prev =
   Decoder_layers ls i noise x enc sm tm prev"
  by (induction ls arbitrary: n i x tm) (simp_all add: DecoderLayer_forward_qkv cong: sum.case_cong)

text \<open>
  Claim C9. A decoder layer calls its self-attention with the memory \<open>Some all_input\<close>,
  never \<open>None\<close>, so the attention takes the branch of the separate query projection and
  the fused key/value projection. Replacing the fused query/key/value projection of the
  self-attention of every layer by any other leaves every result of the decoder, value or
  error, as it is.
\<close>

theorem linear_qkv_of_self_attn_unused:
  "Decoder_forward (replace_self_qkv w dec) keep noise tgt enc_out src_pad tgt_pad previous timestep =
   Decoder_forward dec keep noise tgt enc_out src_pad tgt_pad previous timestep"
  by (simp add: Decoder_forward_def replace_self_qkv_def Decoder_layers_qkv cong: sum.case_cong)

lemma MultiHeadedAttention_forward_None:
  "MultiHeadedAttention_forward m keep q mem None \<noteq> Inr y"
  by (simp add: MultiHeadedAttention_forward_def split: sum.splits prod.splits)

lemma DecoderLayer_forward_None:
  "DecoderLayer_forward l noise x enc sm None prev \<noteq> Inr r"
  by (auto simp: DecoderLayer_forward_def MultiHeadedAttention_forward_None
      split: sum.splits option.splits)

lemma Decoder_layers_cache:
  "Decoder_layers (l # rest) i noise x enc sm tm (Some p) \<noteq> Inr r"
  by (auto simp: DecoderLayer_forward_None split: sum.splits)

text \<open>
  With a cache the decoder hands \<open>None\<close> as the self-attention mask to every layer, and
  the attention dereferences its mask unconditionally: every call of the decoder with a
  cache raises, whatever the decoder and its inputs (without layers, stacking the empty list
  of saved inputs raises).
\<close>

lemma Decoder_forward_cache_raises:
  "isl (Decoder_forward dec keep noise tgt enc_out src_pad tgt_pad (Some previous) timestep)"
proof -
  have "isl (case Decoder_layers ls 0 noise x enc sm tm (Some previous) of
               Inl e \<Rightarrow> Inl e
             | Inr (output', saved_inputs) \<Rightarrow>
                 (case stack_1 saved_inputs of Inl e \<Rightarrow> Inl e
                  | Inr all_input \<Rightarrow> Inr (output', all_input)))" for ls x enc sm tm
  proof (cases ls)
    case Nil
    then show ?thesis by (simp add: stack_1_def)
  next
    case (Cons l rest)
    then show ?thesis
      using Decoder_layers_cache [of l rest 0 noise x enc sm tm previous]
      by (cases "Decoder_layers (l # rest) 0 noise x enc sm tm (Some previous)") auto
  qed
  then show ?thesis
    by (simp add: Decoder_forward_def Let_def split: sum.splits)
qed

section \<open>Masked keys\<close>


lemma length_masked_fill [simp]: "length (masked_fill s mr) = min (length s) (length mr)"
  by (simp add: masked_fill_def)


lemma length_softmax [simp]: "length (softmax xs) = length xs"
  by (simp add: softmax_def)


section \<open>Shapes in full-sequence mode\<close>

lemma collect_map_shape:
  "(\<And>x. x \<in> set xs \<Longrightarrow> \<exists>y. f x = Inr y \<and> P y) \<Longrightarrow>
   \<exists>ys. collect (map f xs) = Inr ys \<and> length ys = length xs \<and> list_all P ys"
proof (induction xs)
  case Nil
  then show ?case by simp
next
  case (Cons a xs)
  obtain y where y: "f a = Inr y" "P y" using Cons.prems by auto
  obtain ys where ys: "collect (map f xs) = Inr ys" "length ys = length xs" "list_all P ys"
    using Cons by auto
  show ?case using y ys by simp
qed

lemma is_tensor3_rows:
  "is_tensor3 B L D x \<Longrightarrow> m \<in> set x \<Longrightarrow> r \<in> set m \<Longrightarrow> length r = D"
  by (auto simp: is_tensor3_def is_mat_def list_all_iff)

lemma is_tensor3_mats: "is_tensor3 B L D x \<Longrightarrow> m \<in> set x \<Longrightarrow> is_mat L D m"
  by (auto simp: is_tensor3_def list_all_iff)

lemma is_tensor3_I: "length x = B \<Longrightarrow> (\<And>m. m \<in> set x \<Longrightarrow> is_mat L D m) \<Longrightarrow> is_tensor3 B L D x"
  by (auto simp: is_tensor3_def list_all_iff)

lemma rows_shape:
  assumes "is_tensor3 B L n x" "\<And>r. length r = n \<Longrightarrow> \<exists>y. f r = Inr y \<and> length y = k"
  shows "\<exists>y. collect (map (\<lambda>m. collect (map f m)) x) = Inr y \<and> is_tensor3 B L k y"
proof -
  have "\<exists>y. collect (map f m) = Inr y \<and> is_mat L k y" if "m \<in> set x" for m
  proof -
    have m: "is_mat L n m" using assms(1) that by (rule is_tensor3_mats)
    then have "\<exists>y. f r = Inr y \<and> length y = k" if "r \<in> set m" for r
      using that assms(2) by (auto simp: is_mat_def list_all_iff)
    then obtain y where "collect (map f m) = Inr y" "length y = length m" "list_all (\<lambda>r. length r = k) y"
      using collect_map_shape [of m f "\<lambda>r. length r = k"] by blast
    then show ?thesis using m by (auto simp: is_mat_def)
  qed
  then obtain y where "collect (map (\<lambda>m. collect (map f m)) x) = Inr y" "length y = length x"
      "list_all (is_mat L k) y"
    using collect_map_shape [of x "\<lambda>m. collect (map f m)" "is_mat L k"] by blast
  then show ?thesis using assms(1) by (auto simp: is_tensor3_def)
qed

lemma Linear_forward_shape:
  assumes "well_formed_Linear n k l" "is_tensor3 B L n x"
  shows "\<exists>y. Linear_forward l x = Inr y \<and> is_tensor3 B L k y"
  unfolding Linear_forward_def
  using assms(2)
proof (rule rows_shape)
  fix r :: vec assume "length r = n"
  then show "\<exists>y. Linear_vec l r = Inr y \<and> length y = k"
    using assms(1) by (simp add: Linear_vec_def well_formed_Linear_def is_mat_def)
qed

lemma LayerNorm_forward_shape:
  assumes "well_formed_LayerNorm D lnorm" "is_tensor3 B L D x"
  shows "\<exists>y. LayerNorm_forward lnorm x = Inr y \<and> is_tensor3 B L D y"
  unfolding LayerNorm_forward_def
  using assms(2)
proof (rule rows_shape)
  fix r :: vec assume "length r = D"
  then show "\<exists>y. LayerNorm_vec lnorm r = Inr y \<and> length y = D"
    using assms(1) by (simp add: LayerNorm_vec_def well_formed_LayerNorm_def Let_def)
qed

lemma Dropout_mat_shape: "is_mat L D m \<Longrightarrow> is_mat L D (Dropout_mat d keep m)"
  by (auto simp: Dropout_mat_def is_mat_def list_all_iff in_set_enumerate_eq)

lemma Dropout_forward_shape: "is_tensor3 B L D x \<Longrightarrow> is_tensor3 B L D (Dropout_forward d keep x)"
  by (auto simp: Dropout_forward_def is_tensor3_def list_all_iff in_set_enumerate_eq
      intro!: Dropout_mat_shape)

lemma add_mat_shape:
  assumes "is_mat L D a" "is_mat L D b"
  shows "\<exists>s. add_mat a b = Inr s \<and> is_mat L D s"
proof -
  have "add_mat a b = Inr (map (\<lambda>(u, v). map (\<lambda>(p, q). p + q) (zip u v)) (zip a b))"
    using assms by (intro add_mat_rows) (auto simp: is_mat_def list_all_length)
  moreover have "is_mat L D (map (\<lambda>(u, v). map (\<lambda>(p, q). p + q) (zip u v)) (zip a b))"
    using assms by (auto simp: is_mat_def list_all_length)
  ultimately show ?thesis by blast
qed

lemma add_tensor3_shape:
  assumes "is_tensor3 B L D a" "is_tensor3 B L D b"
  shows "\<exists>s. add_tensor3 a b = Inr s \<and> is_tensor3 B L D s"
proof -
  have "\<exists>y. (case p of (u, v) \<Rightarrow> add_mat u v) = Inr y \<and> is_mat L D y" if "p \<in> set (zip a b)" for p
  proof -
    obtain u v where p: "p = (u, v)" by (cases p)
    then have "u \<in> set a" "v \<in> set b" using that by (auto dest: set_zip_leftD set_zip_rightD)
    then have "is_mat L D u" "is_mat L D v" using assms by (auto intro: is_tensor3_mats)
    then show ?thesis using p by (simp add: add_mat_shape)
  qed
  then obtain s where "collect (map (\<lambda>(u, v). add_mat u v) (zip a b)) = Inr s"
      "length s = length (zip a b)" "list_all (is_mat L D) s"
    using collect_map_shape [of "zip a b" "\<lambda>(u, v). add_mat u v" "is_mat L D"] by blast
  then show ?thesis using assms
    by (auto simp: add_tensor3_def broadcast2_def is_tensor3_def)
qed

lemma residual_shape:
  assumes "well_formed_LayerNorm D lnorm" "is_tensor3 B L D x" "is_tensor3 B L D y"
  shows "\<exists>z. residual lnorm d keep x y = Inr z \<and> is_tensor3 B L D z"
proof -
  obtain s where s: "add_tensor3 x (Dropout_forward d keep y) = Inr s" "is_tensor3 B L D s"
    using add_tensor3_shape [OF assms(2) Dropout_forward_shape [OF assms(3)]] by blast
  then show ?thesis
    using LayerNorm_forward_shape [OF assms(1) s(2)] by (simp add: residual_def)
qed

lemma relu_shape: "is_tensor3 B L D x \<Longrightarrow> is_tensor3 B L D (relu x)"
  by (auto simp: relu_def is_tensor3_def is_mat_def list_all_iff)

lemma FeedForward_forward_shape:
  assumes "well_formed_FeedForward D ff" "is_tensor3 B L D x"
  shows "\<exists>y. FeedForward_forward ff keep x = Inr y \<and> is_tensor3 B L D y"
proof -
  let ?k = "out_features (linear_in ff)"
  obtain y where y: "Linear_forward (linear_in ff) x = Inr y" "is_tensor3 B L ?k y"
    using Linear_forward_shape [of D ?k "linear_in ff" B L x] assms
    by (auto simp: well_formed_FeedForward_def)
  have "is_tensor3 B L ?k (Dropout_forward (ff_dropout ff) keep (relu y))"
    using y(2) by (intro Dropout_forward_shape relu_shape)
  then show ?thesis
    using Linear_forward_shape [of ?k D "linear_out ff" B L] assms y(1)
    by (simp add: FeedForward_forward_def well_formed_FeedForward_def)
qed

lemma is_mat_nth: "is_mat L D m \<longleftrightarrow> length m = L \<and> (\<forall>i<L. length (m ! i) = D)"
  by (auto simp: is_mat_def list_all_length)

lemma is_tensor3_nth: "is_tensor3 B L D x \<longleftrightarrow> length x = B \<and> (\<forall>b<B. is_mat L D (x ! b))"
  by (auto simp: is_tensor3_def list_all_length)

lemma is_tensor4_nth: "is_tensor4 B N L D x \<longleftrightarrow> length x = B \<and> (\<forall>b<B. is_tensor3 N L D (x ! b))"
  by (auto simp: is_tensor4_def list_all_length)

lemma chunk_2:
  assumes "length r = 2 * D" "0 < D"
  shows "chunk 2 r = [take D r, take D (drop D r)]"
proof -
  have 1: "(length r + 2 - 1) div 2 = D" using assms by simp
  have "(2 * D + D - 1) div D = 2"
    using assms(2) by (intro div_nat_eqI) simp_all
  then have 2: "[0..<(length r + D - 1) div D] = [0, 1]"
    using assms by (simp add: upt_rec [of 0] upt_rec [of 1] numeral_2_eq_2)
  show ?thesis
    unfolding chunk_def Let_def 1 2 using assms(2) by simp
qed

lemma is_tensor3_map_map:
  assumes "is_tensor3 B L n x" "\<And>r. length r = n \<Longrightarrow> length (g r) = k"
  shows "is_tensor3 B L k (map (map g) x)"
  using assms by (auto simp: is_tensor3_def is_mat_def list_all_iff)

lemma project_shape:
  assumes wf: "well_formed_attention D m"
      and q: "is_tensor3 B L D query" and mem: "is_tensor3 B' M D mem"
  shows "\<exists>q' k v. project m query (Some mem) = Inr (q', k, v) \<and>
           is_tensor3 B L D q' \<and> is_tensor3 B' M D k \<and> is_tensor3 B' M D v"
proof -
  have D: "0 < D" using wf
    by (cases "D = 0") (auto simp: well_formed_attention_def)
  obtain q' where q': "Linear_forward (linear_q m) query = Inr q'" "is_tensor3 B L D q'"
    using Linear_forward_shape [OF _ q, of D "linear_q m"] wf
    by (auto simp: well_formed_attention_def)
  obtain kv where kv: "Linear_forward (linear_kv m) mem = Inr kv" "is_tensor3 B' M (2 * D) kv"
    using Linear_forward_shape [OF _ mem, of "2 * D" "linear_kv m"] wf
    by (auto simp: well_formed_attention_def)
  have ch: "chunk 2 r = [take D r, take D (drop D r)]" if "im \<in> set kv" "r \<in> set im" for im r
    using is_tensor3_rows [OF kv(2) that] D by (rule chunk_2)
  have all: "list_all (list_all (\<lambda>r. length (chunk 2 r) = 2)) kv"
    using ch by (auto simp: list_all_iff)
  have k: "is_tensor3 B' M D (map (map (\<lambda>r. chunk 2 r ! 0)) kv)"
    using kv(2)
  proof (rule is_tensor3_map_map)
    fix r :: vec assume "length r = 2 * D"
    then show "length (chunk 2 r ! 0) = D" using D by (simp add: chunk_2)
  qed
  have v: "is_tensor3 B' M D (map (map (\<lambda>r. chunk 2 r ! 1)) kv)"
    using kv(2)
  proof (rule is_tensor3_map_map)
    fix r :: vec assume "length r = 2 * D"
    then show "length (chunk 2 r ! 1) = D" using D by (simp add: chunk_2)
  qed
  show ?thesis
    using q' kv(1) all k v by (simp add: project_def)
qed

lemma split_head_shape:
  assumes wf: "well_formed_attention D m" and x: "is_tensor3 B L D x"
  shows "\<exists>y. split_head m x = Inr y \<and> is_tensor4 B (nat (head_count m)) L (nat (dim_per_head m)) y"
proof -
  let ?h = "nat (head_count m)" and ?d = "nat (dim_per_head m)"
  have hd: "0 < head_count m" "0 < dim_per_head m" "head_count m * dim_per_head m = int D"
    using wf by (simp_all add: well_formed_attention_def)
  then have D: "D = ?h * ?d"
    by (metis nat_int nat_mult_distrib less_imp_le)
  have rows: "list_all (list_all (\<lambda>r. int (length r) = head_count m * dim_per_head m)) x"
    using x hd(3) by (auto simp: list_all_iff dest: is_tensor3_rows)
  have len: "length (take ?d (drop (i * ?d) r)) = ?d" if "i < ?h" "length r = D" for i and r :: vec
  proof -
    have "Suc i * ?d \<le> ?h * ?d" using that(1) by (intro mult_le_mono1) simp
    then have "?d \<le> ?h * ?d - i * ?d" by simp
    then show ?thesis using that(2) D by (simp add: min_absorb2)
  qed
  have "is_tensor4 B ?h L ?d
          (map (\<lambda>xb. map (\<lambda>h. map (\<lambda>r. take ?d (drop (h * ?d) r)) xb) [0..<?h]) x)"
    using x len by (auto simp: is_tensor4_nth is_tensor3_nth is_mat_nth)
  then show ?thesis using hd rows by (simp add: split_head_def)
qed

lemma matmul_qk_shape:
  assumes "is_tensor4 B h L d q" "is_tensor4 B h M d k"
  shows "\<exists>s. matmul_qk q k = Inr s \<and> is_tensor4 B h L M s"
  using assms
  by (auto simp: matmul_qk_def broadcast2_def is_tensor4_nth is_tensor3_nth is_mat_nth)


lemma expand_same: "length xs = n \<Longrightarrow> expand n xs = Inr xs"
  by (simp add: expand_def)

lemma collect_map_id:
  "(\<And>x. x \<in> set xs \<Longrightarrow> f x = Inr x) \<Longrightarrow> collect (map f xs) = Inr xs"
  using collect_map_Inr [of xs f "\<lambda>x. x"] by simp

lemma expand_as_same:
  assumes msk: "is_tensor3 B L M msk" and sc: "is_tensor4 B h L M scores" and h: "0 < h"
  shows "expand_as msk scores = Inr msk"
proof -
  have lens: "length msk = B" "length scores = B"
    using msk sc by (simp_all add: is_tensor3_def is_tensor4_def)
  have "(case p of (mm, heads) \<Rightarrow>
           let s0 = (case heads of [] \<Rightarrow> [] | h # _ \<Rightarrow> h)
           in case expand (length s0) mm of Inl e \<Rightarrow> Inl e
              | Inr rows \<Rightarrow> collect (map (expand (case s0 of [] \<Rightarrow> 0 | r # _ \<Rightarrow> length r)) rows))
        = Inr (fst p)" if p: "p \<in> set (zip msk scores)" for p
  proof -
    obtain mm heads where pp: "p = (mm, heads)" by (cases p)
    then have "mm \<in> set msk" "heads \<in> set scores"
      using p by (auto dest: set_zip_leftD set_zip_rightD)
    then have mm: "is_mat L M mm" and heads: "is_tensor3 h L M heads"
      using msk sc by (auto simp: is_tensor3_def is_tensor4_def list_all_iff)
    then obtain h0 rest where hs: "heads = h0 # rest" using h
      by (cases heads) (auto simp: is_tensor3_def)
    then have h0: "is_mat L M h0" using heads by (simp add: is_tensor3_def)
    have rows: "collect (map (expand (case h0 of [] \<Rightarrow> 0 | r # _ \<Rightarrow> length r)) mm) = Inr mm"
    proof (rule collect_map_id)
      fix r assume r: "r \<in> set mm"
      then have "mm \<noteq> []" by auto
      then have "h0 \<noteq> []" using mm h0 by (auto simp: is_mat_def)
      then obtain r0 rs where "h0 = r0 # rs" by (cases h0) auto
      moreover from this have "length r0 = M" using h0 by (simp add: is_mat_def)
      moreover have "length r = M" using r mm by (auto simp: is_mat_def list_all_iff)
      ultimately show "expand (case h0 of [] \<Rightarrow> 0 | r # _ \<Rightarrow> length r) r = Inr r"
        by (simp add: expand_same)
    qed
    have "expand (length h0) mm = Inr mm"
      using mm h0 by (simp add: expand_same is_mat_def)
    then show ?thesis using pp hs rows by simp
  qed
  then have "collect (map (\<lambda>(mm, heads).
           let s0 = (case heads of [] \<Rightarrow> [] | h # _ \<Rightarrow> h)
           in case expand (length s0) mm of Inl e \<Rightarrow> Inl e
              | Inr rows \<Rightarrow> collect (map (expand (case s0 of [] \<Rightarrow> 0 | r # _ \<Rightarrow> length r)) rows))
          (zip msk scores)) = Inr (map fst (zip msk scores))"
    by (intro collect_map_Inr) simp
  moreover have "map fst (zip msk scores) = msk" using lens by simp
  ultimately show ?thesis
    using lens by (simp add: expand_as_def expand_same)
qed

lemma weights_shape:
  assumes sc: "is_tensor4 B h L M scores" and msk: "is_tensor3 B L M msk"
  shows "is_tensor4 B h L M
     (map (\<lambda>(b, heads). map (\<lambda>(hh, s). Dropout_mat d (keep b hh) (map softmax s)) (enumerate 0 heads))
        (enumerate 0
           (map (\<lambda>(heads, mm). map (\<lambda>hh. map (\<lambda>(s, mr). masked_fill s mr) (zip hh mm)) heads)
              (zip scores msk))))"
proof -
  have 1: "is_mat L M (Dropout_mat d k (map softmax (map (\<lambda>(s, mr). masked_fill s mr) (zip hh mm))))"
    if "is_mat L M hh" "is_mat L M mm" for hh :: mat and mm :: "8 word list list" and k
    using that by (intro Dropout_mat_shape) (auto simp: is_mat_nth softmax_def masked_fill_def)
  show ?thesis
    using assms 1
    by (auto simp: is_tensor4_nth is_tensor3_nth nth_enumerate_eq)
qed

lemma matmul_wv_shape:
  assumes "is_tensor4 B h L M w" "is_tensor4 B h M d' v"
  shows "\<exists>c. matmul_wv d w v = Inr c \<and> is_tensor4 B h L d c"
  using assms
  by (auto simp: matmul_wv_def broadcast2_def weighted_sum_def is_tensor4_nth is_tensor3_nth is_mat_nth)

lemma length_concat_const:
  "(\<And>x. x \<in> set xs \<Longrightarrow> length (f x) = d) \<Longrightarrow> length (concat (map f xs)) = length xs * d"
  by (induction xs) simp_all

lemma combine_head_shape:
  assumes c: "is_tensor4 B h L d c" and h: "0 < h"
  shows "is_tensor3 B L (h * d) (combine_head c)"
proof -
  have "is_mat L (h * d) (map (\<lambda>i. concat (map (\<lambda>hh. hh ! i) heads))
                     [0..<(case heads of [] \<Rightarrow> 0 | h0 # _ \<Rightarrow> length h0)])"
    if heads: "is_tensor3 h L d heads" for heads :: tensor3
  proof -
    obtain h0 rest where hs: "heads = h0 # rest" using h heads
      by (cases heads) (auto simp: is_tensor3_def)
    then have "length h0 = L" using heads by (simp add: is_tensor3_def is_mat_def)
    then have n: "(case heads of [] \<Rightarrow> 0 | h0 # _ \<Rightarrow> length h0) = L" using hs by simp
    have lh: "length heads = h" using heads by (simp add: is_tensor3_def)
    have "length (concat (map (\<lambda>hh. hh ! i) heads)) = length heads * d" if "i < L" for i
    proof (rule length_concat_const)
      fix hh assume "hh \<in> set heads"
      then have "is_mat L d hh" using heads by (rule is_tensor3_mats [rotated])
      then show "length (hh ! i) = d" using that by (simp add: is_mat_nth)
    qed
    then show ?thesis unfolding n lh by (simp add: is_mat_nth)
  qed
  then show ?thesis using c
    by (auto simp: combine_head_def is_tensor4_def is_tensor3_def [of B] list_all_iff)
qed

lemma MultiHeadedAttention_forward_shape:
  assumes wf: "well_formed_attention D m"
      and q: "is_tensor3 B L D query" and mem: "is_tensor3 B M D mem"
      and msk: "is_tensor3 B L M msk"
  shows "\<exists>y. MultiHeadedAttention_forward m keep query (Some mem) (Some msk) = Inr y \<and>
              is_tensor3 B L D y"
proof -
  let ?h = "nat (head_count m)" and ?d = "nat (dim_per_head m)"
  have hd: "0 < head_count m" "0 < dim_per_head m" "head_count m * dim_per_head m = int D"
    using wf by (simp_all add: well_formed_attention_def)
  then have D: "?h * ?d = D"
    by (metis nat_int nat_mult_distrib less_imp_le)
  have h: "0 < ?h" using hd by simp
  obtain q0 k0 v0 where p: "project m query (Some mem) = Inr (q0, k0, v0)"
      "is_tensor3 B L D q0" "is_tensor3 B M D k0" "is_tensor3 B M D v0"
    using project_shape [OF wf q mem] by blast
  obtain q1 where q1: "split_head m q0 = Inr q1" "is_tensor4 B ?h L ?d q1"
    using split_head_shape [OF wf p(2)] by blast
  obtain k1 where k1: "split_head m k0 = Inr k1" "is_tensor4 B ?h M ?d k1"
    using split_head_shape [OF wf p(3)] by blast
  obtain v1 where v1: "split_head m v0 = Inr v1" "is_tensor4 B ?h M ?d v1"
    using split_head_shape [OF wf p(4)] by blast
  let ?q2 = "map (map (scale_mat (real_of_int (dim_per_head m) powr (- 1 / 2)))) q1"
  have q2: "is_tensor4 B ?h L ?d ?q2"
    using q1(2) by (auto simp: is_tensor4_nth is_tensor3_nth is_mat_nth scale_mat_def)
  obtain sc where sc: "matmul_qk ?q2 k1 = Inr sc" "is_tensor4 B ?h L M sc"
    using matmul_qk_shape [OF q2 k1(2)] by blast
  have ex: "expand_as msk sc = Inr msk"
    using msk sc(2) h by (rule expand_as_same)
  let ?w = "map (\<lambda>(b, heads). map (\<lambda>(hh, s). Dropout_mat (mha_dropout m) (keep b hh) (map softmax s))
                                   (enumerate 0 heads))
        (enumerate 0
           (map (\<lambda>(heads, mm). map (\<lambda>hh. map (\<lambda>(s, mr). masked_fill s mr) (zip hh mm)) heads)
              (zip sc msk)))"
  have w: "is_tensor4 B ?h L M ?w"
    using sc(2) msk by (rule weights_shape)
  obtain c where c: "matmul_wv ?d ?w v1 = Inr c" "is_tensor4 B ?h L ?d c"
    using matmul_wv_shape [OF w v1(2)] by blast
  have "is_tensor3 B L D (combine_head c)"
    using combine_head_shape [OF c(2) h] D by simp
  then obtain y where y: "Linear_forward (final_linear m) (combine_head c) = Inr y" "is_tensor3 B L D y"
    using Linear_forward_shape [of D D "final_linear m" B L "combine_head c"] wf
    by (auto simp: well_formed_attention_def)
  show ?thesis
    unfolding MultiHeadedAttention_forward_def p(1) sum.case prod.case q1(1) k1(1) v1(1) sc(1)
      option.case ex Let_def c(1)
    using y by simp
qed

lemma DecoderLayer_forward_full:
  assumes wf: "well_formed_DecoderLayer D l"
      and x: "is_tensor3 B L D x" and enc: "is_tensor3 B S D enc"
      and sm: "is_tensor3 B L S sm" and tm: "is_tensor3 B L L tm"
  shows "\<exists>y. DecoderLayer_forward l noise x enc sm (Some tm) None = Inr (y, x) \<and> is_tensor3 B L D y"
proof -
  note w = wf [unfolded well_formed_DecoderLayer_def]
  obtain y where y: "MultiHeadedAttention_forward (self_attn l) (keep_self_attn noise) x (Some x) (Some tm) = Inr y"
      "is_tensor3 B L D y"
    using MultiHeadedAttention_forward_shape [OF _ x x tm] w by blast
  obtain x1 where x1: "residual (norm_0 l) (layer_dropout l) (keep_0 noise) x y = Inr x1"
      "is_tensor3 B L D x1"
    using residual_shape [OF _ x y(2)] w by blast
  obtain y1 where y1: "MultiHeadedAttention_forward (src_attn l) (keep_src_attn noise) x1 (Some enc) (Some sm) = Inr y1"
      "is_tensor3 B L D y1"
    using MultiHeadedAttention_forward_shape [OF _ x1(2) enc sm] w by blast
  obtain x2 where x2: "residual (norm_1 l) (layer_dropout l) (keep_1 noise) x1 y1 = Inr x2"
      "is_tensor3 B L D x2"
    using residual_shape [OF _ x1(2) y1(2)] w by blast
  obtain y2 where y2: "FeedForward_forward (feed_forward l) (keep_ff noise) x2 = Inr y2"
      "is_tensor3 B L D y2"
    using FeedForward_forward_shape [OF _ x2(2)] w by blast
  obtain x3 where x3: "residual (norm_2 l) (layer_dropout l) (keep_2 noise) x2 y2 = Inr x3"
      "is_tensor3 B L D x3"
    using residual_shape [OF _ x2(2) y2(2)] w by blast
  show ?thesis
    by (simp add: DecoderLayer_forward_def y(1) x1(1) y1(1) x2(1) y2(1) x3)
qed

lemma Decoder_layers_full:
  assumes wf: "list_all (well_formed_DecoderLayer D) ls"
      and x: "is_tensor3 B L D x" and enc: "is_tensor3 B S D enc"
      and sm: "is_tensor3 B L S sm" and tm: "is_tensor3 B L L tm"
  shows "\<exists>out. Decoder_layers ls i noise x enc sm (Some tm) None =
                 Inr (out, layer_inputs ls i noise x enc sm tm) \<and>
               is_tensor3 B L D out \<and>
               length (layer_inputs ls i noise x enc sm tm) = length ls \<and>
               list_all (is_tensor3 B L D) (layer_inputs ls i noise x enc sm tm)"
  using wf x
proof (induction ls arbitrary: i x)
  case Nil
  then show ?case by simp
next
  case (Cons l ls)
  obtain y where y: "DecoderLayer_forward l (noise i) x enc sm (Some tm) None = Inr (y, x)"
      "is_tensor3 B L D y"
    using DecoderLayer_forward_full [OF _ Cons.prems(2) enc sm tm] Cons.prems(1) by auto
  obtain out where out: "Decoder_layers ls (Suc i) noise y enc sm (Some tm) None =
                 Inr (out, layer_inputs ls (Suc i) noise y enc sm tm)"
      "is_tensor3 B L D out"
      "length (layer_inputs ls (Suc i) noise y enc sm tm) = length ls"
      "list_all (is_tensor3 B L D) (layer_inputs ls (Suc i) noise y enc sm tm)"
    using Cons.IH [OF _ y(2)] Cons.prems(1) by auto
  show ?case using y out Cons.prems(2) by simp
qed

lemma shape_signature:
  "is_tensor3 B L D s \<Longrightarrow> map (map length) s = replicate B (replicate L D)"
  by (rule nth_equalityI) (auto simp: is_tensor3_nth is_mat_nth intro!: nth_equalityI)

lemma stack_1_shape:
  assumes ne: "saved \<noteq> []" and sh: "list_all (is_tensor3 B L D) saved"
  shows "stack_1 saved = Inr (map (\<lambda>b. map (\<lambda>s. s ! b) saved) [0..<B]) \<and>
         is_tensor4 B (length saved) L D (map (\<lambda>b. map (\<lambda>s. s ! b) saved) [0..<B])"
proof -
  obtain s0 rest where s: "saved = s0 # rest" using ne by (cases saved) auto
  have sig: "map (map length) s = replicate B (replicate L D)" if "s \<in> set saved" for s :: tensor3
    using that sh by (auto simp: list_all_iff intro: shape_signature)
  then have "list_all (\<lambda>s. map (map length) s = map (map length) s0) saved"
    using s by (auto simp: list_all_iff)
  moreover have "length s0 = B" using sh s by (simp add: is_tensor3_def)
  ultimately have 1: "stack_1 saved = Inr (map (\<lambda>b. map (\<lambda>s. s ! b) saved) [0..<B])"
    using s by (simp add: stack_1_def)
  have 2: "is_tensor4 B (length saved) L D (map (\<lambda>b. map (\<lambda>s. s ! b) saved) [0..<B])"
    using sh by (auto simp: is_tensor4_nth is_tensor3_nth [of "length saved"] list_all_length
        is_tensor3_nth [of B])
  show ?thesis using 1 2 by simp
qed

lemma repeat_rows_shape: "is_mat B S pad \<Longrightarrow> is_tensor3 B L S (repeat_rows L pad)"
  by (auto simp: repeat_rows_def is_tensor3_nth is_mat_nth)

lemma make_tgt_mask_shape:
  assumes "L \<le> 1000" "is_mat B L tgt_pad"
  shows "\<exists>tm. make_tgt_mask L tgt_pad = Inr tm \<and> is_tensor3 B L L tm"
proof -
  have "list_all (\<lambda>row. length row = L) tgt_pad" using assms(2) by (simp add: is_mat_def)
  from make_tgt_mask_Inr [OF assms(1) this] show ?thesis
    using assms(2) by (auto simp: is_tensor3_nth is_mat_nth)
qed

lemma Embedding_forward_shape:
  assumes wf: "well_formed_Embedding emb"
      and x: "token_batch (length (emb_weight emb)) L x"
      and t: "0 \<le> t" "t + int L \<le> int (length (pe emb))"
  shows "\<exists>y. Embedding_forward emb keep x t = Inr y \<and>
              is_tensor3 (length x) L (nat (embedding_dim emb)) y"
proof -
  let ?D = "nat (embedding_dim emb)"
  have w: "length (emb_weight emb ! nat i) = ?D" if "0 \<le> i" "i < int (length (emb_weight emb))" for i
  proof -
    have "nat i < length (emb_weight emb)" using that by linarith
    then show ?thesis using wf by (simp add: well_formed_Embedding_def list_all_length)
  qed
  have p: "length (pe emb ! (nat t + l)) = ?D" if "l < L" for l
  proof -
    have "nat t + l < length (pe emb)" using that t by linarith
    then show ?thesis using wf by (simp add: well_formed_Embedding_def list_all_length)
  qed
  have "is_tensor3 (length x) L ?D
     (map (\<lambda>row. map (\<lambda>(l, i). map (\<lambda>(w, q). (w * sqrt (real_of_int (embedding_dim emb)) + q) * sqrt (real_of_int (embedding_dim emb)))
                (zip (emb_weight emb ! nat i) (pe emb ! (nat t + l)))) (enumerate 0 row)) x)"
    using x w p
    by (auto simp: is_tensor3_nth is_mat_nth token_batch_def list_all_length nth_enumerate_eq)
  then show ?thesis
    unfolding Embedding_forward_Inr [OF wf x t]
    by (simp add: Dropout_forward_shape)
qed

lemma Decoder_forward_full:
  assumes wf: "well_formed_Decoder dec"
      and tgt: "token_batch (length (emb_weight (embedding dec))) L tgt"
      and L: "L \<le> 1000"
      and t: "0 \<le> t" "t + int L \<le> int (length (pe (embedding dec)))"
      and enc: "is_tensor3 (length tgt) S (nat (embedding_dim (embedding dec))) enc_out"
      and src_pad: "is_mat (length tgt) S src_pad"
      and tgt_pad: "is_mat (length tgt) L tgt_pad"
  shows "\<exists>emb_out tgt_mask out all_input.
           Embedding_forward (embedding dec) keep tgt t = Inr emb_out \<and>
           make_tgt_mask L tgt_pad = Inr tgt_mask \<and>
           Decoder_forward dec keep noise tgt enc_out src_pad tgt_pad None t = Inr (out, all_input) \<and>
           is_tensor3 (length tgt) L (nat (embedding_dim (embedding dec))) out \<and>
           is_tensor4 (length tgt) (length (layers dec)) L (nat (embedding_dim (embedding dec))) all_input \<and>
           (\<forall>b<length tgt. \<forall>i<length (layers dec).
              all_input ! b ! i =
              layer_inputs (layers dec) 0 noise emb_out enc_out (repeat_rows L src_pad) tgt_mask ! i ! b)"
proof -
  let ?B = "length tgt" and ?D = "nat (embedding_dim (embedding dec))"
  note w = wf [unfolded well_formed_Decoder_def]
  obtain x where x: "Embedding_forward (embedding dec) keep tgt t = Inr x" "is_tensor3 ?B L ?D x"
    using Embedding_forward_shape [OF _ tgt t] w by blast
  obtain tm where tm: "make_tgt_mask L tgt_pad = Inr tm" "is_tensor3 ?B L L tm"
    using make_tgt_mask_shape [OF L tgt_pad] by blast
  let ?sm = "repeat_rows L src_pad"
  have sm: "is_tensor3 ?B L S ?sm" using src_pad by (rule repeat_rows_shape)
  let ?saved = "layer_inputs (layers dec) 0 noise x enc_out ?sm tm"
  obtain out where out: "Decoder_layers (layers dec) 0 noise x enc_out ?sm (Some tm) None = Inr (out, ?saved)"
      "is_tensor3 ?B L ?D out" "length ?saved = length (layers dec)"
      "list_all (is_tensor3 ?B L ?D) ?saved"
    using Decoder_layers_full [OF _ x(2) enc sm tm(2)] w by blast
  have ne: "?saved \<noteq> []" using out(3) w by auto
  note st = stack_1_shape [OF ne out(4)]
  let ?all = "map (\<lambda>b. map (\<lambda>s. s ! b) ?saved) [0..<?B]"
  have "Decoder_forward dec keep noise tgt enc_out src_pad tgt_pad None t = Inr (out, ?all)"
    unfolding Decoder_forward_def x(1) sum.case Let_def seq_len_token_batch [OF tgt] tm(1)
      out(1) prod.case using st by simp
  moreover have "is_tensor4 ?B (length (layers dec)) L ?D ?all"
    using st out(3) by simp
  moreover have "\<forall>b<?B. \<forall>i<length (layers dec). ?all ! b ! i = ?saved ! i ! b"
    using out(3) by simp
  ultimately show ?thesis using x(1) tm(1) out(2) by blast
qed

text \<open>
  Claim C8. Without a cache, for a well-formed decoder, a batch of \<open>B\<close> rows of \<open>L\<close>
  token ids within the vocabulary and the tables, an encoder output of \<open>B \<times> S \<times> D\<close> and
  padding flags of matching sizes, the decoder returns a hidden state of shape
  \<open>B \<times> L \<times> D\<close> and a stack of shape \<open>B \<times> N \<times> L \<times> D\<close> for its \<open>N\<close> layers, and entry
  \<open>i\<close> of the stack is the input of layer \<open>i\<close> over the whole sequence (with no cache the
  layer's \<open>all_input\<close>, the memory of its self-attention, is its own input).
\<close>

theorem Decoder_forward_full_sequence:
  assumes wf: "well_formed_Decoder dec"
      and tgt: "token_batch (length (emb_weight (embedding dec))) L tgt"
      and L: "L \<le> 1000"
      and t: "0 \<le> t" "t + int L \<le> int (length (pe (embedding dec)))"
      and enc: "is_tensor3 (length tgt) S (nat (embedding_dim (embedding dec))) enc_out"
      and src_pad: "is_mat (length tgt) S src_pad"
      and tgt_pad: "is_mat (length tgt) L tgt_pad"
  shows "\<exists>emb_out tgt_mask out all_input.
           Embedding_forward (embedding dec) keep tgt t = Inr emb_out \<and>
           make_tgt_mask L tgt_pad = Inr tgt_mask \<and>
           Decoder_forward dec keep noise tgt enc_out src_pad tgt_pad None t = Inr (out, all_input) \<and>
           is_tensor3 (length tgt) L (nat (embedding_dim (embedding dec))) out \<and>
           is_tensor4 (length tgt) (length (layers dec)) L (nat (embedding_dim (embedding dec))) all_input \<and>
           (\<forall>b<length tgt. \<forall>i<length (layers dec).
              all_input ! b ! i =
              layer_inputs (layers dec) 0 noise emb_out enc_out (repeat_rows L src_pad) tgt_mask ! i ! b)"
  using assms by (rule Decoder_forward_full)

lemma pe_example_shape: "length pe_example = 5000 \<and> list_all (\<lambda>r. length r = 2) pe_example"
proof -
  obtain table where t: "positional_encoding_2 2 5000 = Inr table"
    by (simp add: positional_encoding_2_Inr)
  show ?thesis
    using positional_encoding_2_length [OF t] positional_encoding_2_rows [OF t]
    by (simp add: pe_example_def t)
qed

lemma decoder_example_dims:
  "nat (embedding_dim (embedding decoder_example)) = 2"
  "length (layers decoder_example) = 1"
  "length (emb_weight (embedding decoder_example)) = 2"
  "length (pe (embedding decoder_example)) = 5000"
  by (simp_all add: decoder_example_def pe_example_shape)

lemma decoder_example_well_formed: "well_formed_Decoder decoder_example"
  by (simp add: well_formed_Decoder_def decoder_example_def well_formed_Embedding_def
      well_formed_DecoderLayer_def well_formed_attention_def attn_example_2_def
      well_formed_FeedForward_def well_formed_LayerNorm_def well_formed_Linear_def is_mat_def
      pe_example_shape)

lemma pe_example_row_0: "pe_example ! 0 = [0, 1]"
proof -
  have "positional_encoding_2 2 5000 = Inr (map (\<lambda>pos. assign_stride2 1
                 (assign_stride2 0 (replicate (nat 2) 0)
                    (map (\<lambda>j. sin (real pos * exp (real (2 * j) * - (ln 10000 / real_of_int 2)))) [0..<nat 2 div 2]))
                 (map (\<lambda>j. cos (real pos * exp (real (2 * j) * - (ln 10000 / real_of_int 2)))) [0..<nat 2 div 2]))
            [0..<nat 5000])"
    by (rule positional_encoding_2_Inr) simp_all
  then have "pe_example ! 0 = assign_stride2 1 (assign_stride2 0 [0, 0] [0]) [1]"
    by (simp add: pe_example_def numeral_2_eq_2)
  also have "\<dots> = [0, 1]"
    by (simp add: assign_stride2_def upt_rec [of 0] upt_rec [of 1] numeral_2_eq_2)
  finally show ?thesis .
qed

text \<open>
  The embedding of the example decoder on the token 1 at time step 0: the weight
  \<open>1 / 2\<close> is scaled by \<open>sqrt 2\<close> twice.
\<close>

theorem Embedding_forward_value_witness:
  "Embedding_forward (embedding decoder_example) keep_all [[1]] 0 = Inr [[[1, sqrt 2 - 1]]]"
proof -
  have wf: "well_formed_Embedding (embedding decoder_example)"
    using decoder_example_well_formed by (simp add: well_formed_Decoder_def)
  have "Embedding_forward (embedding decoder_example) keep_all [[1]] 0 =
     Inr (Dropout_forward (emb_dropout (embedding decoder_example)) keep_all
       (map (\<lambda>row. map (\<lambda>(l, i). map (\<lambda>(w, q). (w * sqrt (real_of_int (embedding_dim (embedding decoder_example))) + q) * sqrt (real_of_int (embedding_dim (embedding decoder_example))))
                (zip (emb_weight (embedding decoder_example) ! nat i) (pe (embedding decoder_example) ! (nat 0 + l)))) (enumerate 0 row)) [[1]]))"
    by (rule Embedding_forward_value [OF wf, where L = 1])
      (simp_all add: token_batch_def decoder_example_dims)
  then show ?thesis
    by (simp add: decoder_example_def pe_example_row_0 Dropout_forward_def Dropout_mat_def
        algebra_simps)
qed

theorem Decoder_forward_full_sequence_witness:
  "\<exists>emb_out tgt_mask out all_input.
     Embedding_forward (embedding decoder_example) keep_all [[1, 0]] 0 = Inr emb_out \<and>
     make_tgt_mask 2 [[0, 0]] = Inr tgt_mask \<and>
     Decoder_forward decoder_example keep_all noise_example [[1, 0]] [[[1, 2], [3, 4], [5, 6]]] [[0, 0, 1]] [[0, 0]] None 0
       = Inr (out, all_input) \<and>
     is_tensor3 1 2 2 out \<and> is_tensor4 1 1 2 2 all_input \<and>
     all_input ! 0 ! 0 =
       layer_inputs (layers decoder_example) 0 noise_example emb_out [[[1, 2], [3, 4], [5, 6]]]
         (repeat_rows 2 [[0, 0, 1]]) tgt_mask ! 0 ! 0"
proof -
  have "\<exists>emb_out tgt_mask out all_input.
           Embedding_forward (embedding decoder_example) keep_all [[1, 0]] 0 = Inr emb_out \<and>
           make_tgt_mask 2 [[0, 0]] = Inr tgt_mask \<and>
           Decoder_forward decoder_example keep_all noise_example [[1, 0]] [[[1, 2], [3, 4], [5, 6]]] [[0, 0, 1]] [[0, 0]] None 0
             = Inr (out, all_input) \<and>
           is_tensor3 (length [[1, 0 :: int]]) 2 (nat (embedding_dim (embedding decoder_example))) out \<and>
           is_tensor4 (length [[1, 0 :: int]]) (length (layers decoder_example)) 2
             (nat (embedding_dim (embedding decoder_example))) all_input \<and>
           (\<forall>b<length [[1, 0 :: int]]. \<forall>i<length (layers decoder_example).
              all_input ! b ! i =
              layer_inputs (layers decoder_example) 0 noise_example emb_out [[[1, 2], [3, 4], [5, 6]]]
                (repeat_rows 2 [[0, 0, 1]]) tgt_mask ! i ! b)"
  proof (rule Decoder_forward_full_sequence [where S = 3])
    show "well_formed_Decoder decoder_example" by (rule decoder_example_well_formed)
    show "token_batch (length (emb_weight (embedding decoder_example))) 2 [[1, 0]]"
      by (simp add: token_batch_def decoder_example_dims)
    show "(2::nat) \<le> 1000" by simp
    show "(0::int) \<le> 0" by simp
    show "0 + int 2 \<le> int (length (pe (embedding decoder_example)))"
      by (simp add: decoder_example_dims)
    show "is_tensor3 (length [[1, 0 :: int]]) 3 (nat (embedding_dim (embedding decoder_example))) [[[1, 2], [3, 4], [5, 6]]]"
      by (simp add: is_tensor3_def is_mat_def decoder_example_dims)
    show "is_mat (length [[1, 0 :: int]]) 3 [[0, 0, 1 :: 8 word]]"
      by (simp add: is_mat_def)
    show "is_mat (length [[1, 0 :: int]]) 2 [[0, 0 :: 8 word]]"
      by (simp add: is_mat_def)
  qed
  then obtain emb_out tgt_mask out all_input where r:
           "Embedding_forward (embedding decoder_example) keep_all [[1, 0]] 0 = Inr emb_out"
           "make_tgt_mask 2 [[0, 0]] = Inr tgt_mask"
           "Decoder_forward decoder_example keep_all noise_example [[1, 0]] [[[1, 2], [3, 4], [5, 6]]] [[0, 0, 1]] [[0, 0]] None 0
             = Inr (out, all_input)"
           "is_tensor3 (length [[1, 0 :: int]]) 2 (nat (embedding_dim (embedding decoder_example))) out"
           "is_tensor4 (length [[1, 0 :: int]]) (length (layers decoder_example)) 2
             (nat (embedding_dim (embedding decoder_example))) all_input"
           "\<forall>b<length [[1, 0 :: int]]. \<forall>i<length (layers decoder_example).
              all_input ! b ! i =
              layer_inputs (layers decoder_example) 0 noise_example emb_out [[[1, 2], [3, 4], [5, 6]]]
                (repeat_rows 2 [[0, 0, 1]]) tgt_mask ! i ! b"
    by blast
  note d = decoder_example_dims(1,2)
  have "all_input ! 0 ! 0 =
       layer_inputs (layers decoder_example) 0 noise_example emb_out [[[1, 2], [3, 4], [5, 6]]]
         (repeat_rows 2 [[0, 0, 1]]) tgt_mask ! 0 ! 0"
    using r(6) d(2) by simp
  then show ?thesis using r(1-5) d by auto
qed

section \<open>Masked keys in the forward pass\<close>





lemma length_Dropout_mat [simp]: "length (Dropout_mat d keep x) = length x"
  by (simp add: Dropout_mat_def)















text \<open>
  The scores that the forward pass computes before masking are those of \<open>scaled_scores\<close>.
\<close>

lemma MultiHeadedAttention_forward_scores:
  assumes "project m query memory = Inr (q, k, v)" and "split_head m v = Inr v'"
  shows "MultiHeadedAttention_forward m keep query memory msk =
     (case scaled_scores m q k of Inl e \<Rightarrow> Inl e
      | Inr scores \<Rightarrow>
     (case msk of None \<Rightarrow> Inl AttributeError
      | Some msk' \<Rightarrow>
     (case expand_as msk' scores of Inl e \<Rightarrow> Inl e
      | Inr msk'' \<Rightarrow>
          let scores = map (\<lambda>(heads, mm). map (\<lambda>h. map (\<lambda>(s, mr). masked_fill s mr) (zip h mm)) heads)
                         (zip scores msk'');
              weights = map (\<lambda>(b, heads). map (\<lambda>(h, s). Dropout_mat (mha_dropout m) (keep b h) (map softmax s))
                                              (enumerate 0 heads))
                          (enumerate 0 scores)
          in case matmul_wv (nat (dim_per_head m)) weights v' of Inl e \<Rightarrow> Inl e
             | Inr context \<Rightarrow> Linear_forward (final_linear m) (combine_head context))))"
  using assms
  by (simp add: MultiHeadedAttention_forward_def scaled_scores_def split: sum.splits)








section \<open>Incremental decoding\<close>

lemma MultiHeadedAttention_forward_no_mask:
  assumes wf: "well_formed_attention D m"
      and q: "is_tensor3 B L D query" and mem: "is_tensor3 B M D mem"
  shows "MultiHeadedAttention_forward m keep query (Some mem) None = Inl AttributeError"
proof -
  let ?h = "nat (head_count m)" and ?d = "nat (dim_per_head m)"
  obtain q0 k0 v0 where p: "project m query (Some mem) = Inr (q0, k0, v0)"
      "is_tensor3 B L D q0" "is_tensor3 B M D k0" "is_tensor3 B M D v0"
    using project_shape [OF wf q mem] by blast
  obtain q1 where q1: "split_head m q0 = Inr q1" "is_tensor4 B ?h L ?d q1"
    using split_head_shape [OF wf p(2)] by blast
  obtain k1 where k1: "split_head m k0 = Inr k1" "is_tensor4 B ?h M ?d k1"
    using split_head_shape [OF wf p(3)] by blast
  obtain v1 where v1: "split_head m v0 = Inr v1" "is_tensor4 B ?h M ?d v1"
    using split_head_shape [OF wf p(4)] by blast
  let ?q2 = "map (map (scale_mat (real_of_int (dim_per_head m) powr (- 1 / 2)))) q1"
  have q2: "is_tensor4 B ?h L ?d ?q2"
    using q1(2) by (auto simp: is_tensor4_nth is_tensor3_nth is_mat_nth scale_mat_def)
  obtain sc where sc: "matmul_qk ?q2 k1 = Inr sc" "is_tensor4 B ?h L M sc"
    using matmul_qk_shape [OF q2 k1(2)] by blast
  show ?thesis
    unfolding MultiHeadedAttention_forward_def p(1) sum.case prod.case q1(1) k1(1) v1(1) sc(1)
      option.case
    by simp
qed

lemma cat_1_shape:
  assumes "is_tensor3 B K D prev" "is_tensor3 B L D x"
  shows "\<exists>a. cat_1 prev x = Inr a \<and> is_tensor3 B (K + L) D a"
proof -
  have "\<exists>y. (case p of (pb, xb) \<Rightarrow>
                 if pb = [] \<or> xb = [] \<or> length (hd pb) = length (hd xb) then Inr (pb @ xb)
                 else Inl RuntimeError) = Inr y \<and> is_mat (K + L) D y"
    if "p \<in> set (zip prev x)" for p
  proof -
    obtain pb xb where p: "p = (pb, xb)" by (cases p)
    then have "pb \<in> set prev" "xb \<in> set x" using that by (auto dest: set_zip_leftD set_zip_rightD)
    then have m: "is_mat K D pb" "is_mat L D xb" using assms by (auto intro: is_tensor3_mats)
    then have "pb = [] \<or> xb = [] \<or> length (hd pb) = length (hd xb)"
      by (cases pb; cases xb) (auto simp: is_mat_def)
    moreover have "is_mat (K + L) D (pb @ xb)" using m by (auto simp: is_mat_def)
    ultimately show ?thesis using p by auto
  qed
  then obtain a where "collect (map (\<lambda>(pb, xb).
                 if pb = [] \<or> xb = [] \<or> length (hd pb) = length (hd xb) then Inr (pb @ xb)
                 else Inl RuntimeError) (zip prev x)) = Inr a"
      "length a = length (zip prev x)" "list_all (is_mat (K + L) D) a"
    using collect_map_shape [of "zip prev x" "\<lambda>(pb, xb).
                 if pb = [] \<or> xb = [] \<or> length (hd pb) = length (hd xb) then Inr (pb @ xb)
                 else Inl RuntimeError" "is_mat (K + L) D"] by blast
  then show ?thesis using assms by (auto simp: cat_1_def is_tensor3_def)
qed

lemma DecoderLayer_forward_cache:
  assumes wf: "well_formed_DecoderLayer D l"
      and x: "is_tensor3 B L D x" and prev: "is_tensor3 B K D prev"
  shows "DecoderLayer_forward l noise x enc sm None (Some prev) = Inl AttributeError"
proof -
  obtain a where a: "cat_1 prev x = Inr a" "is_tensor3 B (K + L) D a"
    using cat_1_shape [OF prev x] by blast
  have "MultiHeadedAttention_forward (self_attn l) (keep_self_attn noise) x (Some a) None =
        Inl AttributeError"
    using wf by (intro MultiHeadedAttention_forward_no_mask [OF _ x a(2)])
      (simp add: well_formed_DecoderLayer_def)
  then show ?thesis by (simp add: DecoderLayer_forward_def a(1))
qed

lemma select_1_shape:
  assumes "is_tensor4 B N K D p" "i < N"
  shows "\<exists>pl. select_1 p i = Inr pl \<and> is_tensor3 B K D pl"
proof -
  have "\<exists>y. (if i < length pb then Inr (pb ! i) else Inl IndexError) = Inr y \<and> is_mat K D y"
    if "pb \<in> set p" for pb
  proof -
    have "is_tensor3 N K D pb" using assms(1) that by (auto simp: is_tensor4_def list_all_iff)
    then show ?thesis using assms(2) by (auto simp: is_tensor3_nth)
  qed
  then obtain pl where "collect (map (\<lambda>pb. if i < length pb then Inr (pb ! i) else Inl IndexError) p) = Inr pl"
      "length pl = length p" "list_all (is_mat K D) pl"
    using collect_map_shape [of p "\<lambda>pb. if i < length pb then Inr (pb ! i) else Inl IndexError" "is_mat K D"]
    by blast
  then show ?thesis using assms(1) by (auto simp: select_1_def is_tensor3_def is_tensor4_def)
qed

lemma Decoder_forward_cache_AttributeError:
  assumes wf: "well_formed_Decoder dec"
      and tgt: "token_batch (length (emb_weight (embedding dec))) L tgt"
      and L: "L \<le> 1000"
      and t: "0 \<le> t" "t + int L \<le> int (length (pe (embedding dec)))"
      and tgt_pad: "is_mat (length tgt) L tgt_pad"
      and prev: "is_tensor4 (length tgt) (length (layers dec)) K (nat (embedding_dim (embedding dec))) previous"
  shows "Decoder_forward dec keep noise tgt enc_out src_pad tgt_pad (Some previous) t = Inl AttributeError"
proof -
  let ?B = "length tgt" and ?D = "nat (embedding_dim (embedding dec))"
  note w = wf [unfolded well_formed_Decoder_def]
  obtain l rest where ls: "layers dec = l # rest" using w by (cases "layers dec") auto
  have wl: "well_formed_DecoderLayer ?D l" using w ls by simp
  obtain x where x: "Embedding_forward (embedding dec) keep tgt t = Inr x" "is_tensor3 ?B L ?D x"
    using Embedding_forward_shape [OF _ tgt t] w by blast
  obtain tm where tm: "make_tgt_mask L tgt_pad = Inr tm"
    using make_tgt_mask_shape [OF L tgt_pad] by blast
  obtain pl where pl: "select_1 previous 0 = Inr pl" "is_tensor3 ?B K ?D pl"
    using select_1_shape [OF prev] ls by auto
  have "DecoderLayer_forward l (noise 0) x enc_out (repeat_rows L src_pad) None (Some pl) =
        Inl AttributeError"
    using wl x(2) pl(2) by (rule DecoderLayer_forward_cache)
  then show ?thesis
    unfolding Decoder_forward_def x(1) sum.case Let_def seq_len_token_batch [OF tgt] tm ls
    by (simp add: pl(1))
qed

text \<open>
  Claim C1 does not hold of the code. Incremental decoding of the tokens \<open>[1, 0]\<close> with
  the example decoder (one layer of two heads, dropout disabled): the first call, without a cache,
  returns a hidden state and a cache; the second call, given that cache, raises
  \<open>AttributeError\<close> at the \<open>None\<close> mask of the self-attention, so there is no
  final-step hidden state to compare with the full-sequence run.
\<close>

theorem incremental_second_step_raises:
  "case Decoder_forward decoder_example keep_all noise_example [[1]] [[[1, 2], [3, 4], [5, 6]]] [[0, 0, 1]] [[0]] None 0 of
     Inl e \<Rightarrow> False
   | Inr (out, cache) \<Rightarrow>
       Decoder_forward decoder_example keep_all noise_example [[0]] [[[1, 2], [3, 4], [5, 6]]] [[0, 0, 1]] [[0]]
         (Some cache) 1 = Inl AttributeError"
proof -
  note wf = decoder_example_well_formed
  note d = decoder_example_dims
  have "\<exists>emb_out tgt_mask out all_input.
           Embedding_forward (embedding decoder_example) keep_all [[1]] 0 = Inr emb_out \<and>
           make_tgt_mask 1 [[0]] = Inr tgt_mask \<and>
           Decoder_forward decoder_example keep_all noise_example [[1]] [[[1, 2], [3, 4], [5, 6]]] [[0, 0, 1]] [[0]] None 0
             = Inr (out, all_input) \<and>
           is_tensor3 (length [[1 :: int]]) 1 (nat (embedding_dim (embedding decoder_example))) out \<and>
           is_tensor4 (length [[1 :: int]]) (length (layers decoder_example)) 1
             (nat (embedding_dim (embedding decoder_example))) all_input \<and>
           (\<forall>b<length [[1 :: int]]. \<forall>i<length (layers decoder_example).
              all_input ! b ! i =
              layer_inputs (layers decoder_example) 0 noise_example emb_out [[[1, 2], [3, 4], [5, 6]]]
                (repeat_rows 1 [[0, 0, 1]]) tgt_mask ! i ! b)"
    by (rule Decoder_forward_full [where S = 3, OF wf])
      (simp_all add: d token_batch_def is_tensor3_def is_mat_def)
  then obtain out cache where first:
      "Decoder_forward decoder_example keep_all noise_example [[1]] [[[1, 2], [3, 4], [5, 6]]] [[0, 0, 1]] [[0]] None 0
         = Inr (out, cache)"
      "is_tensor4 (length [[1 :: int]]) (length (layers decoder_example)) 1
             (nat (embedding_dim (embedding decoder_example))) cache"
    by blast
  have "Decoder_forward decoder_example keep_all noise_example [[0]] [[[1, 2], [3, 4], [5, 6]]] [[0, 0, 1]] [[0]]
         (Some cache) 1 = Inl AttributeError"
    by (rule Decoder_forward_cache_AttributeError [where L = 1 and K = 1, OF wf])
      (use first(2) in \<open>simp_all add: d token_batch_def is_mat_def\<close>)
  then show ?thesis using first(1) by simp
qed

end
